theory Spec2Isabelle
  imports Main "HOL-Library.Word"
begin

section \<open>Data model\<close>

text \<open>
  A block is a \<^verbatim>\<open>Uint8Array\<close>. A CID carries a multihash, whose \<open>code\<close> names the
  hash algorithm and whose \<open>digest\<close> is the expected hash of the block.
\<close>

type_synonym bytes = "8 word list"

record MultihashDigest =
  code :: nat
  digest :: bytes

record CID =
  version :: nat
  codec :: nat
  multihash :: MultihashDigest

text \<open>A \<^verbatim>\<open>MultihashHasher\<close> is used through \<^verbatim>\<open>hasher.digest(block)\<close> only.\<close>

type_synonym MultihashHasher = "bytes \<Rightarrow> bytes"

datatype error =
    ERR_UNKNOWN_HASH_ALG nat
  | ERR_HASH_MISMATCH
  | ERR_NOT_FOUND
  | AbortError
  | BrokerFailure string
  | AggregateError "error list"

subsection \<open>Promises under logical time\<close>

text \<open>
  The final state of a promise: fulfilled with a value, rejected with an error, or never
  settled. A promise is paired with the logical time at which it settles (the time of a
  pending promise is not read). Times order the settlements of the promises handed to
  one \<^verbatim>\<open>Promise.any\<close> or \<^verbatim>\<open>Promise.all\<close>; of promises that settle at the same time the one
  earlier in the array is handled first.
\<close>

datatype 'a outcome = Fulfilled 'a | Rejected error | Pending

type_synonym 'a promise = "nat \<times> 'a outcome"

fun earliest :: "(nat \<times> 'a) list \<Rightarrow> (nat \<times> 'a) option" where
  "earliest [] = None"
| "earliest ((t, v) # ps) =
     (case earliest ps of
        None \<Rightarrow> Some (t, v)
      | Some (t', v') \<Rightarrow> if t' < t then Some (t', v') else Some (t, v))"

fun fulfilments :: "'a promise list \<Rightarrow> (nat \<times> 'a) list" where
  "fulfilments [] = []"
| "fulfilments ((t, Fulfilled v) # ps) = (t, v) # fulfilments ps"
| "fulfilments (_ # ps) = fulfilments ps"

fun rejections :: "'a promise list \<Rightarrow> (nat \<times> error) list" where
  "rejections [] = []"
| "rejections ((t, Rejected e) # ps) = (t, e) # rejections ps"
| "rejections (_ # ps) = rejections ps"

fun is_pending :: "'a promise \<Rightarrow> bool" where
  "is_pending (_, Pending) = True"
| "is_pending _ = False"

text \<open>
  \<^verbatim>\<open>Promise.any\<close>: fulfilled with the first fulfilment; rejected with an
  \<^verbatim>\<open>AggregateError\<close> of all rejections, in array order, once every promise has rejected
  (at once for the empty array).
\<close>

definition Promise_any :: "'a promise list \<Rightarrow> 'a outcome" where
  "Promise_any ps =
     (case earliest (fulfilments ps) of
        Some (t, v) \<Rightarrow> Fulfilled v
      | None \<Rightarrow>
          if list_ex is_pending ps then Pending
          else Rejected (AggregateError (map snd (rejections ps))))"

text \<open>
  \<^verbatim>\<open>Promise.all\<close>: rejected with the first rejection; fulfilled with all values once
  every promise has fulfilled.
\<close>

definition Promise_all :: "'a promise list \<Rightarrow> 'a list outcome" where
  "Promise_all ps =
     (case earliest (rejections ps) of
        Some (t, e) \<Rightarrow> Rejected e
      | None \<Rightarrow>
          if list_ex is_pending ps then Pending
          else Fulfilled (map snd (fulfilments ps)))"

subsection \<open>Abort signals\<close>

text \<open>
  An \<^verbatim>\<open>AbortSignal\<close> is the logical time at which it fires, \<open>None\<close> when it never fires
  (or when the caller passed none). \<^verbatim>\<open>anySignal\<close> fires when the first of its sources does.
\<close>

type_synonym AbortSignal = "nat option"

definition aborted_at :: "AbortSignal \<Rightarrow> nat \<Rightarrow> bool" where
  "aborted_at s t = (case s of None \<Rightarrow> False | Some a \<Rightarrow> a \<le> t)"

fun anySignal :: "AbortSignal list \<Rightarrow> AbortSignal" where
  "anySignal [] = None"
| "anySignal (None # ss) = anySignal ss"
| "anySignal (Some a # ss) =
     (case anySignal ss of None \<Rightarrow> Some a | Some b \<Rightarrow> Some (min a b))"

subsection \<open>Block brokers\<close>

text \<open>
  What a broker's \<^verbatim>\<open>retrieve(cid, { signal, validateFn })\<close> does, as far as the storage can
  tell: it resolves with bytes, rejects, or never settles; before that it may await
  \<^verbatim>\<open>validateFn\<close> on any bytes (continuing one way when the call returns, another when it
  throws) and may read \<^verbatim>\<open>signal.aborted\<close> at some time.
\<close>

datatype retrieval =
    Resolve nat bytes
  | Reject nat error
  | Never
  | CallValidateFn bytes retrieval retrieval
  | IfAborted nat retrieval retrieval

text \<open>
  A \<^verbatim>\<open>BlockBroker\<close>: every capability is optional. \<open>broker_id\<close> names the broker in
  the trace of effects.
\<close>

datatype BlockBroker =
  BlockBroker
    (broker_id: nat)
    (broker_retrieve: "(CID \<Rightarrow> retrieval) option")
    (broker_announce: "(CID \<Rightarrow> bytes \<Rightarrow> unit promise) option")
    (broker_createSession: "(CID \<Rightarrow> BlockBroker promise) option")

subsection \<open>Block stores\<close>

text \<open>
  Block stores are objects: a persistent store is an address into the heap of the world,
  so that two storages built over the same store see each other's writes.
\<close>

datatype Blockstore =
    MemoryBlockstore nat
  | IdentityBlockstore
  | TieredBlockstore "Blockstore list"

datatype event =
    Progress string CID
  | ChildHas CID
  | ChildGet CID
  | ChildPut CID bytes
  | BrokerRetrieve nat CID
  | BrokerAnnounce nat CID bytes
  | BrokerCreateSession nat CID

record world =
  heap :: "nat \<Rightarrow> CID \<rightharpoonup> bytes"
  trace :: "event list"

definition emit :: "event list \<Rightarrow> world \<Rightarrow> world" where
  "emit evs w = w\<lparr>trace := trace w @ evs\<rparr>"

text \<open>
  Modelled from the spec: the Local Tier's stores (\<^verbatim>\<open>blockstore-core\<close> is not part of the
  sources). The identity tier holds exactly the blocks whose CID encodes its own bytes
  (multihash code 0) and needs no storage; a tiered store answers from the first of its
  stores that has the block and writes to all of them; a miss is a not-found failure.
\<close>

definition IDENTITY_CODEC :: nat where
  "IDENTITY_CODEC = 0"

fun bs_has :: "(nat \<Rightarrow> CID \<rightharpoonup> bytes) \<Rightarrow> Blockstore \<Rightarrow> CID \<Rightarrow> bool" where
  "bs_has h (MemoryBlockstore a) cid = (h a cid \<noteq> None)"
| "bs_has h IdentityBlockstore cid = (code (multihash cid) = IDENTITY_CODEC)"
| "bs_has h (TieredBlockstore stores) cid = list_ex (\<lambda>s. bs_has h s cid) stores"

fun first_found :: "(error + bytes) list \<Rightarrow> error + bytes" where
  "first_found [] = Inl ERR_NOT_FOUND"
| "first_found (Inr b # rs) = Inr b"
| "first_found (Inl e # rs) = first_found rs"

fun bs_get :: "(nat \<Rightarrow> CID \<rightharpoonup> bytes) \<Rightarrow> Blockstore \<Rightarrow> CID \<Rightarrow> error + bytes" where
  "bs_get h (MemoryBlockstore a) cid =
     (case h a cid of None \<Rightarrow> Inl ERR_NOT_FOUND | Some b \<Rightarrow> Inr b)"
| "bs_get h IdentityBlockstore cid =
     (if code (multihash cid) = IDENTITY_CODEC then Inr (digest (multihash cid))
      else Inl ERR_NOT_FOUND)"
| "bs_get h (TieredBlockstore stores) cid = first_found (map (\<lambda>s. bs_get h s cid) stores)"

fun bs_put :: "Blockstore \<Rightarrow> CID \<Rightarrow> bytes \<Rightarrow> (nat \<Rightarrow> CID \<rightharpoonup> bytes) \<Rightarrow> (nat \<Rightarrow> CID \<rightharpoonup> bytes)" where
  "bs_put (MemoryBlockstore a) cid block h = h(a := (h a)(cid \<mapsto> block))"
| "bs_put IdentityBlockstore cid block h = h"
| "bs_put (TieredBlockstore stores) cid block h = fold (\<lambda>s. bs_put s cid block) stores h"

section \<open>The verifier\<close>

text \<open>
  \<^verbatim>\<open>getCidBlockVerifierFunction\<close>: throws when no hasher is given; the function it returns
  (\<open>verifyBlock\<close>) throws when the hash of the block is not the digest of the CID.
\<close>

definition verifyBlock :: "CID \<Rightarrow> MultihashHasher \<Rightarrow> bytes \<Rightarrow> error + unit" where
  "verifyBlock cid hasher block =
     (if hasher block \<noteq> digest (multihash cid) then Inl ERR_HASH_MISMATCH else Inr ())"

definition getCidBlockVerifierFunction ::
  "CID \<Rightarrow> MultihashHasher option \<Rightarrow> error + (bytes \<Rightarrow> error + unit)" where
  "getCidBlockVerifierFunction cid hasher =
     (case hasher of
        None \<Rightarrow> Inl (ERR_UNKNOWN_HASH_ALG (code (multihash cid)))
      | Some h \<Rightarrow> Inr (verifyBlock cid h))"

section \<open>The retrieval race\<close>

text \<open>
  One broker's \<^verbatim>\<open>retrieve\<close> run against the \<^verbatim>\<open>validateFn\<close> wrapper the race hands it: the
  wrapper sets \<^verbatim>\<open>blocksWereValidated\<close> after a call of the verifier that did not throw.
  The result is the broker's promise and the final value of the flag.
\<close>

fun run_retrieve ::
  "(bytes \<Rightarrow> error + unit) \<Rightarrow> AbortSignal \<Rightarrow> retrieval \<Rightarrow> bool \<Rightarrow> bytes promise \<times> bool" where
  "run_retrieve validateFn signal (Resolve t block) blocksWereValidated =
     ((t, Fulfilled block), blocksWereValidated)"
| "run_retrieve validateFn signal (Reject t err) blocksWereValidated =
     ((t, Rejected err), blocksWereValidated)"
| "run_retrieve validateFn signal Never blocksWereValidated =
     ((0, Pending), blocksWereValidated)"
| "run_retrieve validateFn signal (CallValidateFn block returned threw) blocksWereValidated =
     (case validateFn block of
        Inr _ \<Rightarrow> run_retrieve validateFn signal returned True
      | Inl err \<Rightarrow> run_retrieve validateFn signal threw blocksWereValidated)"
| "run_retrieve validateFn signal (IfAborted t yes no) blocksWereValidated =
     (if aborted_at signal t then run_retrieve validateFn signal yes blocksWereValidated
      else run_retrieve validateFn signal no blocksWereValidated)"

text \<open>
  The body of the async function mapped over the retrievers: when the broker resolved and
  the flag is still unset, the block is validated here, and a throw rejects the attempt.
  The \<^verbatim>\<open>catch\<close> logs and rethrows the same error; the logger is not modelled.
\<close>

definition retrieveAttempt ::
  "(bytes \<Rightarrow> error + unit) \<Rightarrow> AbortSignal \<Rightarrow> retrieval \<Rightarrow> bytes promise" where
  "retrieveAttempt validateFn signal r =
     (case run_retrieve validateFn signal r False of
        ((t, Fulfilled block), blocksWereValidated) \<Rightarrow>
          if \<not> blocksWereValidated then
            (case validateFn block of
               Inl err \<Rightarrow> (t, Rejected err)
             | Inr _ \<Rightarrow> (t, Fulfilled block))
          else (t, Fulfilled block)
      | ((t, Rejected err), _) \<Rightarrow> (t, Rejected err)
      | ((t, Pending), _) \<Rightarrow> (t, Pending))"

text \<open>\<^verbatim>\<open>isRetrievingBlockBroker\<close> and the loop that collects the retrievers.\<close>

definition isRetrievingBlockBroker :: "BlockBroker \<Rightarrow> bool" where
  "isRetrievingBlockBroker broker = (broker_retrieve broker \<noteq> None)"

fun retrievers_of :: "BlockBroker list \<Rightarrow> (nat \<times> (CID \<Rightarrow> retrieval)) list" where
  "retrievers_of [] = []"
| "retrievers_of (broker # blockBrokers) =
     (case broker_retrieve broker of
        None \<Rightarrow> retrievers_of blockBrokers
      | Some r \<Rightarrow> (broker_id broker, r) # retrievers_of blockBrokers)"

text \<open>
  The signal handed to every retriever: \<^verbatim>\<open>anySignal([controller.signal, options.signal])\<close>.
  The function creates the controller and never calls its \<^verbatim>\<open>abort()\<close>, so the controller's
  signal never fires; \<^verbatim>\<open>signal.clear()\<close> in the \<^verbatim>\<open>finally\<close> block only detaches listeners.
\<close>

definition race_signal :: "AbortSignal \<Rightarrow> AbortSignal" where
  "race_signal options_signal =
     (let controller_signal = None in anySignal [controller_signal, options_signal])"

definition retrieverPromises ::
  "CID \<Rightarrow> BlockBroker list \<Rightarrow> (bytes \<Rightarrow> error + unit) \<Rightarrow> AbortSignal \<Rightarrow> bytes promise list" where
  "retrieverPromises cid blockBrokers validateFn options_signal =
     map (\<lambda>(i, retrieve). retrieveAttempt validateFn (race_signal options_signal) (retrieve cid))
       (retrievers_of blockBrokers)"

text \<open>The calls of \<^verbatim>\<open>retriever.retrieve\<close> the race makes, in the order of the brokers.\<close>

definition retrieveEvents :: "CID \<Rightarrow> BlockBroker list \<Rightarrow> event list" where
  "retrieveEvents cid blockBrokers =
     map (\<lambda>(i, retrieve). BrokerRetrieve i cid) (retrievers_of blockBrokers)"

definition raceBlockRetrievers ::
  "CID \<Rightarrow> BlockBroker list \<Rightarrow> MultihashHasher option \<Rightarrow> AbortSignal \<Rightarrow> world
     \<Rightarrow> bytes outcome \<times> world" where
  "raceBlockRetrievers cid blockBrokers hasher options_signal w =
     (case getCidBlockVerifierFunction cid hasher of
        Inl err \<Rightarrow> (Rejected err, w)
      | Inr validateFn \<Rightarrow>
          (Promise_any (retrieverPromises cid blockBrokers validateFn options_signal),
           emit (retrieveEvents cid blockBrokers) w))"

section \<open>The networked storage\<close>

record NetworkedStorageComponents =
  blockstore :: Blockstore
  blockBrokers :: "BlockBroker list"
  hashers :: "nat \<rightharpoonup> MultihashHasher"

record NetworkedStorage =
  child :: Blockstore
  this_hashers :: "nat \<rightharpoonup> MultihashHasher"
  started :: bool
  components :: NetworkedStorageComponents
  log_root :: "CID option"

text \<open>The constructor; \<open>init_root\<close> only names the logger.\<close>

definition new_NetworkedStorage ::
  "NetworkedStorageComponents \<Rightarrow> CID option \<Rightarrow> NetworkedStorage" where
  "new_NetworkedStorage comps init_root =
     \<lparr> child = TieredBlockstore [IdentityBlockstore, blockstore comps],
       this_hashers = hashers comps,
       started = False,
       components = comps,
       log_root = init_root \<rparr>"

text \<open>
  \<^verbatim>\<open>await Promise.all(blockBrokers.map(async broker => broker.announce?.(cid, block, options)))\<close>:
  a broker without \<^verbatim>\<open>announce\<close> contributes a promise that fulfils at once.
\<close>

definition announcePromises :: "BlockBroker list \<Rightarrow> CID \<Rightarrow> bytes \<Rightarrow> unit promise list" where
  "announcePromises brokers cid block =
     map (\<lambda>broker. case broker_announce broker of
                      None \<Rightarrow> (0, Fulfilled ())
                    | Some f \<Rightarrow> f cid block) brokers"

fun announceEvents :: "BlockBroker list \<Rightarrow> CID \<Rightarrow> bytes \<Rightarrow> event list" where
  "announceEvents [] cid block = []"
| "announceEvents (broker # brokers) cid block =
     (case broker_announce broker of
        None \<Rightarrow> announceEvents brokers cid block
      | Some f \<Rightarrow> BrokerAnnounce (broker_id broker) cid block # announceEvents brokers cid block)"

definition announceAll ::
  "BlockBroker list \<Rightarrow> CID \<Rightarrow> bytes \<Rightarrow> world \<Rightarrow> unit list outcome \<times> world" where
  "announceAll brokers cid block w =
     (Promise_all (announcePromises brokers cid block), emit (announceEvents brokers cid block) w)"

text \<open>\<^verbatim>\<open>this.child.put(cid, block, options)\<close>.\<close>

definition child_put :: "NetworkedStorage \<Rightarrow> CID \<Rightarrow> bytes \<Rightarrow> world \<Rightarrow> world" where
  "child_put this cid block w =
     emit [ChildPut cid block] (w\<lparr>heap := bs_put (child this) cid block (heap w)\<rparr>)"

text \<open>\<^verbatim>\<open>NetworkedStorage.put\<close>.\<close>

definition put :: "NetworkedStorage \<Rightarrow> CID \<Rightarrow> bytes \<Rightarrow> world \<Rightarrow> CID outcome \<times> world" where
  "put this cid block w =
     (let w1 = emit [ChildHas cid] w in
      if bs_has (heap w1) (child this) cid then
        (Fulfilled cid, emit [Progress ''blocks:put:duplicate'' cid] w1)
      else
        (case announceAll (blockBrokers (components this)) cid block
                (emit [Progress ''blocks:put:providers:notify'' cid] w1) of
           (Rejected err, w2) \<Rightarrow> (Rejected err, w2)
         | (Pending, w2) \<Rightarrow> (Pending, w2)
         | (Fulfilled _, w2) \<Rightarrow>
             (Fulfilled cid,
              child_put this cid block (emit [Progress ''blocks:put:blockstore:put'' cid] w2))))"

record GetOptions =
  offline :: bool
  signal :: AbortSignal

text \<open>
  \<^verbatim>\<open>NetworkedStorage.get\<close>. With \<^verbatim>\<open>offline\<close> set the condition is decided before
  \<^verbatim>\<open>this.child.has\<close> is called.
\<close>

definition get :: "NetworkedStorage \<Rightarrow> CID \<Rightarrow> GetOptions \<Rightarrow> world \<Rightarrow> bytes outcome \<times> world" where
  "get this cid options w =
     (let w1 = (if offline options then w else emit [ChildHas cid] w) in
      if \<not> offline options \<and> \<not> bs_has (heap w1) (child this) cid then
        (case raceBlockRetrievers cid (blockBrokers (components this))
                (this_hashers this (code (multihash cid))) (signal options)
                (emit [Progress ''blocks:get:providers:get'' cid] w1) of
           (Rejected err, w2) \<Rightarrow> (Rejected err, w2)
         | (Pending, w2) \<Rightarrow> (Pending, w2)
         | (Fulfilled block, w2) \<Rightarrow>
             (case announceAll (blockBrokers (components this)) cid block
                     (emit [Progress ''blocks:get:providers:notify'' cid]
                        (child_put this cid block
                           (emit [Progress ''blocks:get:blockstore:put'' cid] w2))) of
                (Rejected err, w3) \<Rightarrow> (Rejected err, w3)
              | (Pending, w3) \<Rightarrow> (Pending, w3)
              | (Fulfilled _, w3) \<Rightarrow> (Fulfilled block, w3)))
      else
        (let w2 = emit [Progress ''blocks:get:blockstore:get'' cid, ChildGet cid] w1 in
         (case bs_get (heap w2) (child this) cid of
            Inl err \<Rightarrow> (Rejected err, w2)
          | Inr block \<Rightarrow> (Fulfilled block, w2))))"

text \<open>
  \<^verbatim>\<open>NetworkedStorage.createSession\<close>: a broker without \<^verbatim>\<open>createSession\<close> is kept, the
  others are asked for a session; the new storage is built over \<^verbatim>\<open>this.child\<close>.
\<close>

definition sessionPromises :: "BlockBroker list \<Rightarrow> CID \<Rightarrow> BlockBroker promise list" where
  "sessionPromises brokers root =
     map (\<lambda>broker. case broker_createSession broker of
                      None \<Rightarrow> (0, Fulfilled broker)
                    | Some f \<Rightarrow> f root) brokers"

fun sessionEvents :: "BlockBroker list \<Rightarrow> CID \<Rightarrow> event list" where
  "sessionEvents [] root = []"
| "sessionEvents (broker # brokers) root =
     (case broker_createSession broker of
        None \<Rightarrow> sessionEvents brokers root
      | Some f \<Rightarrow> BrokerCreateSession (broker_id broker) root # sessionEvents brokers root)"

definition createSession ::
  "NetworkedStorage \<Rightarrow> CID \<Rightarrow> world \<Rightarrow> NetworkedStorage outcome \<times> world" where
  "createSession this root w =
     (let w1 = emit (sessionEvents (blockBrokers (components this)) root) w in
      case Promise_all (sessionPromises (blockBrokers (components this)) root) of
        Rejected err \<Rightarrow> (Rejected err, w1)
      | Pending \<Rightarrow> (Pending, w1)
      | Fulfilled sessionBrokers \<Rightarrow>
          (Fulfilled
             (new_NetworkedStorage
                \<lparr> blockstore = child this,
                  blockBrokers = sessionBrokers,
                  hashers = this_hashers this \<rparr>
                (Some root)),
           w1))"

section \<open>Vocabulary of the properties\<close>

fun is_fulfilled :: "'a promise \<Rightarrow> bool" where
  "is_fulfilled (_, Fulfilled v) = True"
| "is_fulfilled _ = False"

fun is_rejected :: "'a promise \<Rightarrow> bool" where
  "is_rejected (_, Rejected e) = True"
| "is_rejected _ = False"

text \<open>The effects an operation added to the trace.\<close>

definition events_since :: "world \<Rightarrow> world \<Rightarrow> event list" where
  "events_since w w' = drop (length (trace w)) (trace w')"

fun is_broker_event :: "event \<Rightarrow> bool" where
  "is_broker_event (BrokerRetrieve i cid) = True"
| "is_broker_event (BrokerAnnounce i cid block) = True"
| "is_broker_event (BrokerCreateSession i cid) = True"
| "is_broker_event _ = False"

fun is_announce :: "event \<Rightarrow> bool" where
  "is_announce (BrokerAnnounce i cid block) = True"
| "is_announce _ = False"

fun is_child_put :: "event \<Rightarrow> bool" where
  "is_child_put (ChildPut cid block) = True"
| "is_child_put _ = False"


text \<open>The backing heap cells a store writes to, and whether it keeps what is put.\<close>

fun addrs :: "Blockstore \<Rightarrow> nat set" where
  "addrs (MemoryBlockstore a) = {a}"
| "addrs IdentityBlockstore = {}"
| "addrs (TieredBlockstore stores) = \<Union> (set (map addrs stores))"

fun persistent :: "Blockstore \<Rightarrow> bool" where
  "persistent (MemoryBlockstore a) = True"
| "persistent IdentityBlockstore = False"
| "persistent (TieredBlockstore stores) = list_ex persistent stores"

text \<open>
  The bytes a broker's retrieval hands to \<^verbatim>\<open>validateFn\<close> on some path, and what the race
  has checked of a block it resolves with: some retriever resolved with the block, and
  either the race validated it (the flag was unset), or the flag was set by a call of
  \<^verbatim>\<open>validateFn\<close> on bytes that match the digest, not necessarily the block.
\<close>

fun callback_blocks :: "retrieval \<Rightarrow> bytes list" where
  "callback_blocks (CallValidateFn block returned threw) =
     block # callback_blocks returned @ callback_blocks threw"
| "callback_blocks (IfAborted t yes no) = callback_blocks yes @ callback_blocks no"
| "callback_blocks _ = []"

definition accepted_from ::
  "CID \<Rightarrow> MultihashHasher \<Rightarrow> AbortSignal \<Rightarrow> bytes \<Rightarrow> retrieval \<Rightarrow> bool" where
  "accepted_from cid h sig block r =
     (case run_retrieve (verifyBlock cid h) (race_signal sig) r False of
        ((t, Fulfilled b), validated) \<Rightarrow>
          b = block \<and>
          (if validated then list_ex (\<lambda>b'. h b' = digest (multihash cid)) (callback_blocks r)
           else h block = digest (multihash cid))
      | _ \<Rightarrow> False)"

definition accepted_by_race ::
  "CID \<Rightarrow> BlockBroker list \<Rightarrow> MultihashHasher \<Rightarrow> AbortSignal \<Rightarrow> bytes \<Rightarrow> bool" where
  "accepted_by_race cid brokers h sig block =
     list_ex (\<lambda>(i, retrieve). accepted_from cid h sig block (retrieve cid)) (retrievers_of brokers)"


text \<open>Shorthands for the statements below.\<close>

abbreviation brokers_of :: "NetworkedStorage \<Rightarrow> BlockBroker list" where
  "brokers_of this \<equiv> blockBrokers (components this)"

abbreviation hasher_of :: "NetworkedStorage \<Rightarrow> CID \<Rightarrow> MultihashHasher option" where
  "hasher_of this cid \<equiv> this_hashers this (code (multihash cid))"

abbreviation holds :: "world \<Rightarrow> NetworkedStorage \<Rightarrow> CID \<Rightarrow> bool" where
  "holds w this cid \<equiv> bs_has (heap w) (child this) cid"

abbreviation announces :: "NetworkedStorage \<Rightarrow> CID \<Rightarrow> bytes \<Rightarrow> unit promise list" where
  "announces this cid block \<equiv> announcePromises (brokers_of this) cid block"

abbreviation attempts :: "NetworkedStorage \<Rightarrow> CID \<Rightarrow> MultihashHasher \<Rightarrow> GetOptions \<Rightarrow> bytes promise list" where
  "attempts this cid h options \<equiv>
     retrieverPromises cid (brokers_of this) (verifyBlock cid h) (signal options)"

abbreviation race_result :: "NetworkedStorage \<Rightarrow> CID \<Rightarrow> GetOptions \<Rightarrow> world \<Rightarrow> bytes outcome" where
  "race_result this cid options w \<equiv>
     fst (raceBlockRetrievers cid (brokers_of this) (hasher_of this cid) (signal options) w)"

abbreviation put_events :: "NetworkedStorage \<Rightarrow> CID \<Rightarrow> bytes \<Rightarrow> world \<Rightarrow> event list" where
  "put_events this cid block w \<equiv> events_since w (snd (put this cid block w))"

abbreviation get_events :: "NetworkedStorage \<Rightarrow> CID \<Rightarrow> GetOptions \<Rightarrow> world \<Rightarrow> event list" where
  "get_events this cid options w \<equiv> events_since w (snd (get this cid options w))"

abbreviation put_twice_events :: "NetworkedStorage \<Rightarrow> CID \<Rightarrow> bytes \<Rightarrow> world \<Rightarrow> event list" where
  "put_twice_events this cid block w \<equiv>
     events_since w (snd (put this cid block (snd (put this cid block w))))"

text \<open>\<open>session_of root old new\<close>: what createSession puts in the place of a broker.\<close>

definition session_of :: "CID \<Rightarrow> BlockBroker \<Rightarrow> BlockBroker \<Rightarrow> bool" where
  "session_of root old new =
     (case broker_createSession old of
        None \<Rightarrow> new = old
      | Some f \<Rightarrow> snd (f root) = Fulfilled new)"

section \<open>Example inputs\<close>

text \<open>A toy hasher (the sum of the bytes), a CID whose digest is 6, a matching and a
  mismatching block, a world with empty stores and one whose store 0 holds the matching
  block.\<close>

definition example_hasher :: MultihashHasher where
  "example_hasher block = [sum_list block]"

definition example_cid :: CID where
  "example_cid = \<lparr> version = 1, codec = 85, multihash = \<lparr> code = 18, digest = [6] \<rparr> \<rparr>"

definition good_block :: bytes where
  "good_block = [1, 2, 3]"

definition bad_block :: bytes where
  "bad_block = [9]"

definition empty_world :: world where
  "empty_world = \<lparr> heap = (\<lambda>a. Map.empty), trace = [] \<rparr>"

definition stored_world :: world where
  "stored_world = \<lparr> heap = (\<lambda>a. Map.empty)(0 := [example_cid \<mapsto> good_block]), trace = [] \<rparr>"

definition online :: GetOptions where
  "online = \<lparr> offline = False, signal = None \<rparr>"

definition offline_only :: GetOptions where
  "offline_only = \<lparr> offline = True, signal = None \<rparr>"

text \<open>Brokers. Announcers: one whose announce rejects, one whose announce fulfils.
  Retrievers: \<open>good\<close> resolves at time 5 with the matching block; \<open>bad\<close> resolves at
  time 1 with the mismatching block and never validates; \<open>faulty\<close> validates the matching
  block and then resolves with the mismatching one; \<open>slow\<close> resolves at time 10 unless it
  sees the signal aborted at time 5; \<open>fast\<close> resolves at time 1 with the matching block;
  \<open>failing\<close> rejects. \<open>session_broker\<close> hands out broker 10 as its session.\<close>

definition failing_announcer :: BlockBroker where
  "failing_announcer =
     BlockBroker 1 None (Some (\<lambda>cid block. (1, Rejected (BrokerFailure ''announce failed'')))) None"

definition ok_announcer :: BlockBroker where
  "ok_announcer = BlockBroker 2 None (Some (\<lambda>cid block. (1, Fulfilled ()))) None"

definition good_retriever :: BlockBroker where
  "good_retriever = BlockBroker 3 (Some (\<lambda>cid. Resolve 5 good_block)) None None"

definition bad_retriever :: BlockBroker where
  "bad_retriever = BlockBroker 4 (Some (\<lambda>cid. Resolve 1 bad_block)) None None"

definition faulty_retriever :: BlockBroker where
  "faulty_retriever =
     BlockBroker 5
       (Some (\<lambda>cid. CallValidateFn good_block (Resolve 1 bad_block) (Reject 1 ERR_HASH_MISMATCH)))
       None None"

definition slow_retriever :: BlockBroker where
  "slow_retriever =
     BlockBroker 6 (Some (\<lambda>cid. IfAborted 5 (Reject 5 AbortError) (Resolve 10 good_block))) None None"

definition fast_retriever :: BlockBroker where
  "fast_retriever = BlockBroker 7 (Some (\<lambda>cid. Resolve 1 good_block)) None None"

definition failing_retriever :: BlockBroker where
  "failing_retriever =
     BlockBroker 8 (Some (\<lambda>cid. Reject 2 (BrokerFailure ''network failure''))) None None"

definition session_of_9 :: BlockBroker where
  "session_of_9 = BlockBroker 10 (Some (\<lambda>cid. Resolve 1 good_block)) None None"

definition session_broker :: BlockBroker where
  "session_broker =
     BlockBroker 9 (Some (\<lambda>cid. Resolve 1 good_block)) None (Some (\<lambda>root. (1, Fulfilled session_of_9)))"

text \<open>Storages over store 0, with a hasher for code 18 or with none.\<close>

definition example_storage :: "BlockBroker list \<Rightarrow> NetworkedStorage" where
  "example_storage brokers =
     new_NetworkedStorage
       \<lparr> blockstore = MemoryBlockstore 0, blockBrokers = brokers,
         hashers = [18 \<mapsto> example_hasher] \<rparr> None"

definition unhashed_storage :: "BlockBroker list \<Rightarrow> NetworkedStorage" where
  "unhashed_storage brokers =
     new_NetworkedStorage
       \<lparr> blockstore = MemoryBlockstore 0, blockBrokers = brokers, hashers = Map.empty \<rparr> None"

abbreviation storage_ok :: NetworkedStorage where
  "storage_ok \<equiv> example_storage [good_retriever, ok_announcer]"

abbreviation storage_failing :: NetworkedStorage where
  "storage_failing \<equiv> example_storage [good_retriever, failing_announcer]"

abbreviation storage_mixed :: NetworkedStorage where
  "storage_mixed \<equiv> example_storage [bad_retriever, good_retriever]"

abbreviation storage_unhashed :: NetworkedStorage where
  "storage_unhashed \<equiv> unhashed_storage [good_retriever]"

abbreviation storage_sessions :: NetworkedStorage where
  "storage_sessions \<equiv> example_storage [session_broker, good_retriever]"

abbreviation example_verify :: "bytes \<Rightarrow> error + unit" where
  "example_verify \<equiv> verifyBlock example_cid example_hasher"

section \<open>Lemmas: promises\<close>

lemma Promise_any_Nil: "Promise_any [] = Rejected (AggregateError [])"
  by (simp add: Promise_any_def)

lemma all_rejected_fulfilments: "list_all is_rejected ps \<Longrightarrow> fulfilments ps = []"
  by (induction ps rule: fulfilments.induct) auto

lemma all_rejected_not_pending: "list_all is_rejected ps \<Longrightarrow> \<not> list_ex is_pending ps"
  by (induction ps rule: fulfilments.induct) auto

lemma all_rejected_rejections:
  "list_all is_rejected ps \<Longrightarrow> map (\<lambda>(t, e). (t, Rejected e)) (rejections ps) = ps"
  by (induction ps rule: rejections.induct) auto

lemma Promise_any_all_rejected:
  "list_all is_rejected ps \<Longrightarrow> Promise_any ps = Rejected (AggregateError (map snd (rejections ps)))"
  by (simp add: Promise_any_def all_rejected_fulfilments all_rejected_not_pending)

lemma all_fulfilled_rejections: "list_all is_fulfilled ps \<Longrightarrow> rejections ps = []"
  by (induction ps rule: rejections.induct) auto

lemma all_fulfilled_not_pending: "list_all is_fulfilled ps \<Longrightarrow> \<not> list_ex is_pending ps"
  by (induction ps rule: rejections.induct) auto

lemma no_rejection_no_pending_fulfilled:
  "rejections ps = [] \<Longrightarrow> \<not> list_ex is_pending ps \<Longrightarrow> list_all is_fulfilled ps"
  by (induction ps rule: rejections.induct) auto

lemma earliest_None [simp]: "earliest ps = None \<longleftrightarrow> ps = []"
  by (induction ps rule: earliest.induct) (auto split: option.splits)

lemma Promise_all_fulfilled:
  "list_all is_fulfilled ps \<Longrightarrow> Promise_all ps = Fulfilled (map snd (fulfilments ps))"
  by (simp add: Promise_all_def all_fulfilled_rejections all_fulfilled_not_pending)

lemma Promise_all_Fulfilled_iff:
  "(\<exists>vs. Promise_all ps = Fulfilled vs) \<longleftrightarrow> list_all is_fulfilled ps"
proof
  assume "\<exists>vs. Promise_all ps = Fulfilled vs"
  then have "rejections ps = []" "\<not> list_ex is_pending ps"
    by (auto simp: Promise_all_def split: option.splits if_splits)
  then show "list_all is_fulfilled ps" by (rule no_rejection_no_pending_fulfilled)
next
  assume "list_all is_fulfilled ps"
  then show "\<exists>vs. Promise_all ps = Fulfilled vs" by (simp add: Promise_all_fulfilled)
qed

lemma all_fulfilled_values:
  "list_all is_fulfilled ps \<Longrightarrow> map snd ps = map Fulfilled (map snd (fulfilments ps))"
  by (induction ps rule: fulfilments.induct) auto

lemma Promise_all_values:
  assumes "Promise_all ps = Fulfilled vs"
  shows "map snd ps = map Fulfilled vs"
proof -
  from assms have all: "list_all is_fulfilled ps"
    using Promise_all_Fulfilled_iff by blast
  with assms have "vs = map snd (fulfilments ps)"
    by (simp add: Promise_all_fulfilled)
  with all show ?thesis by (simp add: all_fulfilled_values)
qed

lemma earliest_mem: "earliest ps = Some p \<Longrightarrow> p \<in> set ps"
  by (induction ps arbitrary: p rule: earliest.induct) (auto split: option.splits if_splits)

lemma earliest_least: "earliest ps = Some (t, v) \<Longrightarrow> (t', v') \<in> set ps \<Longrightarrow> t \<le> t'"
  by (induction ps arbitrary: t v rule: earliest.induct)
     (fastforce split: option.splits if_splits)+

lemma rejections_mem: "(t, e) \<in> set (rejections ps) \<longleftrightarrow> (t, Rejected e) \<in> set ps"
  by (induction ps rule: rejections.induct) auto

lemma fulfilments_mem: "(t, v) \<in> set (fulfilments ps) \<longleftrightarrow> (t, Fulfilled v) \<in> set ps"
  by (induction ps rule: fulfilments.induct) auto

lemma some_rejected_rejections: "list_ex is_rejected ps \<Longrightarrow> rejections ps \<noteq> []"
  by (induction ps rule: rejections.induct) auto

lemma Promise_all_rejected:
  assumes "list_ex is_rejected ps"
  shows "\<exists>t e. (t, Rejected e) \<in> set ps \<and> Promise_all ps = Rejected e
           \<and> (\<forall>t' e'. (t', Rejected e') \<in> set ps \<longrightarrow> t \<le> t')"
proof -
  from assms have "rejections ps \<noteq> []"
    by (rule some_rejected_rejections)
  then obtain t e where te: "earliest (rejections ps) = Some (t, e)"
    by (cases "earliest (rejections ps)") auto
  then have "(t, Rejected e) \<in> set ps"
    using earliest_mem rejections_mem by fastforce
  moreover have "Promise_all ps = Rejected e" using te by (simp add: Promise_all_def)
  moreover have "\<forall>t' e'. (t', Rejected e') \<in> set ps \<longrightarrow> t \<le> t'"
    using earliest_least [OF te] by (simp add: rejections_mem)
  ultimately show ?thesis by blast
qed

lemma Promise_any_Fulfilled:
  assumes "Promise_any ps = Fulfilled v"
  shows "\<exists>t. (t, Fulfilled v) \<in> set ps \<and> (\<forall>t' v'. (t', Fulfilled v') \<in> set ps \<longrightarrow> t \<le> t')"
proof -
  from assms obtain t where e: "earliest (fulfilments ps) = Some (t, v)"
    by (auto simp: Promise_any_def split: option.splits if_splits)
  then have "(t, Fulfilled v) \<in> set ps"
    using earliest_mem fulfilments_mem by fastforce
  moreover have "\<forall>t' v'. (t', Fulfilled v') \<in> set ps \<longrightarrow> t \<le> t'"
    using earliest_least [OF e] by (simp add: fulfilments_mem)
  ultimately show ?thesis by blast
qed

lemma some_fulfilled_fulfilments: "list_ex is_fulfilled ps \<Longrightarrow> fulfilments ps \<noteq> []"
  by (induction ps rule: fulfilments.induct) auto

lemma Promise_any_some_fulfilled:
  assumes "list_ex is_fulfilled ps"
  shows "\<exists>v. Promise_any ps = Fulfilled v"
proof -
  from assms have "fulfilments ps \<noteq> []" by (rule some_fulfilled_fulfilments)
  then obtain t v where "earliest (fulfilments ps) = Some (t, v)"
    by (cases "earliest (fulfilments ps)") auto
  then show ?thesis by (simp add: Promise_any_def)
qed

section \<open>Lemmas: the local tier\<close>

lemma first_found_all_Inl:
  "(\<And>r. r \<in> set rs \<Longrightarrow> r = Inl ERR_NOT_FOUND) \<Longrightarrow> first_found rs = Inl ERR_NOT_FOUND"
  by (induction rs rule: first_found.induct) auto

lemma first_found_some_Inr:
  "r \<in> set rs \<Longrightarrow> r = Inr b \<Longrightarrow> \<exists>b'. first_found rs = Inr b'"
  by (induction rs rule: first_found.induct) auto

lemma bs_get_miss: "\<not> bs_has h s cid \<Longrightarrow> bs_get h s cid = Inl ERR_NOT_FOUND"
proof (induction h s cid rule: bs_get.induct)
  case (3 h stores cid)
  have "\<And>r. r \<in> set (map (\<lambda>s. bs_get h s cid) stores) \<Longrightarrow> r = Inl ERR_NOT_FOUND"
    using 3 by (auto simp: list_ex_iff)
  then show ?case by (simp add: first_found_all_Inl del: set_map)
qed auto

lemma bs_get_hit: "bs_has h s cid \<Longrightarrow> \<exists>block. bs_get h s cid = Inr block"
proof (induction h s cid rule: bs_get.induct)
  case (3 h stores cid)
  then obtain s where s: "s \<in> set stores" "bs_has h s cid"
    by (auto simp: list_ex_iff)
  with 3 obtain b where "bs_get h s cid = Inr b" by blast
  with s have "Inr b \<in> set (map (\<lambda>s. bs_get h s cid) stores)" by force
  then show ?case using first_found_some_Inr by (metis bs_get.simps(3))
qed auto

lemma fold_bs_put:
  assumes "\<And>s h. s \<in> set stores \<Longrightarrow>
            bs_put s cid block h = (\<lambda>a. if a \<in> addrs s then (h a)(cid \<mapsto> block) else h a)"
  shows "fold (\<lambda>s. bs_put s cid block) stores h
           = (\<lambda>a. if a \<in> \<Union> (set (map addrs stores)) then (h a)(cid \<mapsto> block) else h a)"
  using assms
proof (induction stores arbitrary: h)
  case Nil
  then show ?case by simp
next
  case (Cons s stores)
  have "fold (\<lambda>s. bs_put s cid block) (s # stores) h
          = fold (\<lambda>s. bs_put s cid block) stores (bs_put s cid block h)" by simp
  also have "\<dots> = (\<lambda>a. if a \<in> \<Union> (set (map addrs stores))
                      then ((bs_put s cid block h) a)(cid \<mapsto> block) else (bs_put s cid block h) a)"
    by (rule Cons.IH) (simp add: Cons.prems)
  also have "\<dots> = (\<lambda>a. if a \<in> \<Union> (set (map addrs (s # stores)))
                      then (h a)(cid \<mapsto> block) else h a)"
  proof -
    have eq: "bs_put s cid block h = (\<lambda>a. if a \<in> addrs s then (h a)(cid \<mapsto> block) else h a)"
      by (rule Cons.prems) simp
    show ?thesis unfolding eq by (auto simp: fun_eq_iff)
  qed
  finally show ?case .
qed

lemma bs_put_heap:
  "bs_put s cid block h = (\<lambda>a. if a \<in> addrs s then (h a)(cid \<mapsto> block) else h a)"
proof (induction s cid block h rule: bs_put.induct)
  case (3 stores cid block h)
  show ?case using fold_bs_put [of stores cid block h] 3 by simp
qed (auto simp: fun_eq_iff)

lemma bs_has_written:
  "persistent s \<Longrightarrow> (\<And>a. a \<in> addrs s \<Longrightarrow> h a cid \<noteq> None) \<Longrightarrow> bs_has h s cid"
proof (induction s)
  case (TieredBlockstore stores)
  then obtain s where s: "s \<in> set stores" "persistent s" by (auto simp: list_ex_iff)
  then have "bs_has h s cid" using TieredBlockstore by auto
  with s show ?case by (auto simp: list_ex_iff)
qed auto

lemma bs_has_after_put: "persistent s \<Longrightarrow> bs_has (bs_put s cid block h) s cid"
  by (rule bs_has_written) (simp_all add: bs_put_heap)

lemma tier_over_tier_has:
  "bs_has h (TieredBlockstore [IdentityBlockstore, TieredBlockstore [IdentityBlockstore, store]]) cid
     = bs_has h (TieredBlockstore [IdentityBlockstore, store]) cid"
  by auto

lemma tier_over_tier_get:
  "bs_get h (TieredBlockstore [IdentityBlockstore, TieredBlockstore [IdentityBlockstore, store]]) cid
     = bs_get h (TieredBlockstore [IdentityBlockstore, store]) cid"
  by (cases "bs_get h store cid") auto

lemma tier_over_tier_put:
  "bs_put (TieredBlockstore [IdentityBlockstore, TieredBlockstore [IdentityBlockstore, store]]) cid block h
     = bs_put (TieredBlockstore [IdentityBlockstore, store]) cid block h"
  by simp

section \<open>Lemmas: the race\<close>

lemma retrievers_of_filter:
  "map fst (retrievers_of brokers) = map broker_id (filter isRetrievingBlockBroker brokers)"
  by (induction brokers) (auto simp: isRetrievingBlockBroker_def split: option.splits)

lemma retrieverPromises_Nil:
  "retrievers_of brokers = [] \<Longrightarrow> retrieverPromises cid brokers v s = []"
  by (simp add: retrieverPromises_def)

lemma race_with_hasher:
  "fst (raceBlockRetrievers cid brokers (Some h) sig w)
     = Promise_any (retrieverPromises cid brokers (verifyBlock cid h) sig)"
  by (simp add: raceBlockRetrievers_def getCidBlockVerifierFunction_def)

lemma race_Fulfilled:
  assumes "fst (raceBlockRetrievers cid brokers hasher sig w) = Fulfilled block"
  shows "\<exists>validateFn. getCidBlockVerifierFunction cid hasher = Inr validateFn
           \<and> Promise_any (retrieverPromises cid brokers validateFn sig) = Fulfilled block"
  using assms by (auto simp: raceBlockRetrievers_def split: sum.splits)

lemma race_signal_caller: "race_signal options_signal = options_signal"
  by (cases options_signal) (simp_all add: race_signal_def)

lemma verifyBlock_ok: "verifyBlock cid h block = Inr u \<longleftrightarrow> h block = digest (multihash cid)"
  by (simp add: verifyBlock_def)

lemma run_retrieve_flag:
  "snd (run_retrieve v s r f) \<Longrightarrow> f \<or> (\<exists>b \<in> set (callback_blocks r). \<exists>u. v b = Inr u)"
  by (induction v s r f rule: run_retrieve.induct) (auto split: sum.splits if_splits)

lemma retrieveAttempt_unvalidated:
  assumes "run_retrieve v s r False = ((t, Fulfilled block), False)"
  shows "retrieveAttempt v s r
           = (t, case v block of Inl err \<Rightarrow> Rejected err | Inr u \<Rightarrow> Fulfilled block)"
  using assms by (simp add: retrieveAttempt_def split: sum.splits)

lemma retrieveAttempt_Fulfilled:
  assumes "retrieveAttempt v s r = (t, Fulfilled block)"
  shows "\<exists>validated. run_retrieve v s r False = ((t, Fulfilled block), validated)
           \<and> (validated \<or> (\<exists>u. v block = Inr u))"
  using assms
  by (auto simp: retrieveAttempt_def split: prod.splits outcome.splits if_splits sum.splits)

lemma retrieveAttempt_accepted:
  assumes "retrieveAttempt (verifyBlock cid h) (race_signal sig) r = (t, Fulfilled block)"
  shows "accepted_from cid h sig block r"
proof -
  from retrieveAttempt_Fulfilled [OF assms] obtain validated where
    run: "run_retrieve (verifyBlock cid h) (race_signal sig) r False = ((t, Fulfilled block), validated)"
    and ok: "validated \<or> (\<exists>u. verifyBlock cid h block = Inr u)" by blast
  show ?thesis
  proof (cases validated)
    case True
    with run have "snd (run_retrieve (verifyBlock cid h) (race_signal sig) r False)" by simp
    from run_retrieve_flag [OF this]
    have "list_ex (\<lambda>b'. h b' = digest (multihash cid)) (callback_blocks r)"
      by (auto simp: list_ex_iff verifyBlock_ok)
    with run True show ?thesis by (simp add: accepted_from_def)
  next
    case False
    with ok have "h block = digest (multihash cid)" by (simp add: verifyBlock_ok)
    with run False show ?thesis by (simp add: accepted_from_def)
  qed
qed

lemma race_accepted:
  assumes "fst (raceBlockRetrievers cid brokers (Some h) sig w) = Fulfilled block"
  shows "accepted_by_race cid brokers h sig block"
proof -
  from assms have "Promise_any (retrieverPromises cid brokers (verifyBlock cid h) sig) = Fulfilled block"
    by (simp add: race_with_hasher)
  from Promise_any_Fulfilled [OF this] obtain t where
    "(t, Fulfilled block) \<in> set (retrieverPromises cid brokers (verifyBlock cid h) sig)" by blast
  then obtain i r where ir: "(i, r) \<in> set (retrievers_of brokers)"
    and "retrieveAttempt (verifyBlock cid h) (race_signal sig) (r cid) = (t, Fulfilled block)"
    by (auto simp: retrieverPromises_def)
  from retrieveAttempt_accepted [OF this(2)] ir show ?thesis
    by (auto simp: accepted_by_race_def list_ex_iff)
qed

section \<open>Lemmas: put and get, path by path\<close>

lemma trace_emit [simp]: "trace (emit evs w) = trace w @ evs"
  by (simp add: emit_def)

lemma heap_emit [simp]: "heap (emit evs w) = heap w"
  by (simp add: emit_def)

lemma events_since_append [simp]: "trace w' = trace w @ evs \<Longrightarrow> events_since w w' = evs"
  by (simp add: events_since_def)

lemma trace_child_put [simp]: "trace (child_put this cid block w) = trace w @ [ChildPut cid block]"
  by (simp add: child_put_def)

lemma heap_child_put [simp]:
  "heap (child_put this cid block w) = bs_put (child this) cid block (heap w)"
  by (simp add: child_put_def)

lemma fst_announceAll [simp]:
  "fst (announceAll brokers cid block w) = Promise_all (announcePromises brokers cid block)"
  by (simp add: announceAll_def)

lemma snd_announceAll [simp]:
  "snd (announceAll brokers cid block w) = emit (announceEvents brokers cid block) w"
  by (simp add: announceAll_def)

lemma put_duplicate:
  assumes "holds w this cid"
  shows "fst (put this cid block w) = Fulfilled cid"
    and "trace (snd (put this cid block w))
           = trace w @ [ChildHas cid, Progress ''blocks:put:duplicate'' cid]"
    and "heap (snd (put this cid block w)) = heap w"
  using assms by (simp_all add: put_def)

lemma put_announce_trace:
  assumes "\<not> holds w this cid"
    and "\<not> (\<exists>us. Promise_all (announces this cid block) = Fulfilled us)"
  shows "fst (put this cid block w)
           = (case Promise_all (announces this cid block) of
                Rejected err \<Rightarrow> Rejected err | _ \<Rightarrow> Pending)"
    and "trace (snd (put this cid block w))
           = trace w @ [ChildHas cid, Progress ''blocks:put:providers:notify'' cid]
               @ announceEvents (brokers_of this) cid block"
    and "heap (snd (put this cid block w)) = heap w"
  using assms
  by (auto simp: put_def announceAll_def Let_def split: outcome.splits)

lemma put_written:
  assumes "\<not> holds w this cid"
    and "Promise_all (announces this cid block) = Fulfilled us"
  shows "fst (put this cid block w) = Fulfilled cid"
    and "trace (snd (put this cid block w))
           = trace w @ [ChildHas cid, Progress ''blocks:put:providers:notify'' cid]
               @ announceEvents (brokers_of this) cid block
               @ [Progress ''blocks:put:blockstore:put'' cid, ChildPut cid block]"
    and "heap (snd (put this cid block w)) = bs_put (child this) cid block (heap w)"
  using assms
  by (simp_all add: put_def announceAll_def)

lemma get_local:
  assumes "offline options \<or> holds w this cid"
  shows "fst (get this cid options w)
           = (case bs_get (heap w) (child this) cid of
                Inl err \<Rightarrow> Rejected err | Inr block \<Rightarrow> Fulfilled block)"
    and "trace (snd (get this cid options w))
           = trace w @ (if offline options then [] else [ChildHas cid])
               @ [Progress ''blocks:get:blockstore:get'' cid, ChildGet cid]"
    and "heap (snd (get this cid options w)) = heap w"
  using assms by (auto simp: get_def Let_def split: sum.splits)

lemma get_no_hasher:
  assumes "\<not> offline options" "\<not> holds w this cid"
    and "hasher_of this cid = None"
  shows "fst (get this cid options w) = Rejected (ERR_UNKNOWN_HASH_ALG (code (multihash cid)))"
    and "trace (snd (get this cid options w))
           = trace w @ [ChildHas cid, Progress ''blocks:get:providers:get'' cid]"
    and "heap (snd (get this cid options w)) = heap w"
  using assms
  by (simp_all add: get_def raceBlockRetrievers_def getCidBlockVerifierFunction_def)

lemma get_race_lost:
  assumes "\<not> offline options" "\<not> holds w this cid"
    and "getCidBlockVerifierFunction cid (hasher_of this cid) = Inr validateFn"
    and "\<not> (\<exists>block. Promise_any (retrieverPromises cid (brokers_of this) validateFn
                 (signal options)) = Fulfilled block)"
  shows "fst (get this cid options w)
           = (case Promise_any (retrieverPromises cid (brokers_of this) validateFn
                 (signal options)) of
                Rejected err \<Rightarrow> Rejected err | _ \<Rightarrow> Pending)"
    and "trace (snd (get this cid options w))
           = trace w @ [ChildHas cid, Progress ''blocks:get:providers:get'' cid]
               @ retrieveEvents cid (brokers_of this)"
    and "heap (snd (get this cid options w)) = heap w"
  using assms
  by (auto simp: get_def raceBlockRetrievers_def Let_def split: outcome.splits)

lemma get_race_won:
  assumes "\<not> offline options" "\<not> holds w this cid"
    and "getCidBlockVerifierFunction cid (hasher_of this cid) = Inr validateFn"
    and "Promise_any (retrieverPromises cid (brokers_of this) validateFn
                 (signal options)) = Fulfilled block"
  shows "fst (get this cid options w)
           = (case Promise_all (announces this cid block) of
                Fulfilled us \<Rightarrow> Fulfilled block | Rejected err \<Rightarrow> Rejected err | Pending \<Rightarrow> Pending)"
    and "trace (snd (get this cid options w))
           = trace w @ [ChildHas cid, Progress ''blocks:get:providers:get'' cid]
               @ retrieveEvents cid (brokers_of this)
               @ [Progress ''blocks:get:blockstore:put'' cid, ChildPut cid block,
                  Progress ''blocks:get:providers:notify'' cid]
               @ announceEvents (brokers_of this) cid block"
    and "heap (snd (get this cid options w)) = bs_put (child this) cid block (heap w)"
  using assms
  by (auto simp: get_def raceBlockRetrievers_def announceAll_def Let_def split: outcome.splits)

section \<open>Lemmas: events\<close>




lemma announceEvents_no_put [simp]: "\<not> list_ex is_child_put (announceEvents brokers cid block)"
  by (induction brokers cid block rule: announceEvents.induct) (auto split: option.splits)

lemma retrieveEvents_no_put [simp]: "\<not> list_ex is_child_put (retrieveEvents cid brokers)"
  by (auto simp: retrieveEvents_def list_ex_iff)

lemma retrieveEvents_no_announce [simp]: "\<not> list_ex is_announce (retrieveEvents cid brokers)"
  by (auto simp: retrieveEvents_def list_ex_iff)

lemma retrieveEvents_neither [simp]:
  "filter (\<lambda>e. is_child_put e \<or> is_announce e) (retrieveEvents cid brokers) = []"
  by (auto simp: retrieveEvents_def filter_empty_conv)

lemma filter_announceEvents [simp]:
  "filter is_announce (announceEvents brokers cid block) = announceEvents brokers cid block"
  by (induction brokers cid block rule: announceEvents.induct) (auto split: option.splits)

lemma filter_put_announceEvents [simp]:
  "filter is_child_put (announceEvents brokers cid block) = []"
  by (induction brokers cid block rule: announceEvents.induct) (auto split: option.splits)

section \<open>Lemmas: the examples\<close>

lemma example_child:
  "child (example_storage brokers) = TieredBlockstore [IdentityBlockstore, MemoryBlockstore 0]"
  "child (unhashed_storage brokers) = TieredBlockstore [IdentityBlockstore, MemoryBlockstore 0]"
  by (simp_all add: example_storage_def unhashed_storage_def new_NetworkedStorage_def)

lemma example_brokers:
  "brokers_of (example_storage brokers) = brokers"
  "brokers_of (unhashed_storage brokers) = brokers"
  by (simp_all add: example_storage_def unhashed_storage_def new_NetworkedStorage_def)

lemma example_hashers:
  "hasher_of (example_storage brokers) example_cid = Some example_hasher"
  "this_hashers (unhashed_storage brokers) c = None"
  by (simp_all add: example_storage_def unhashed_storage_def new_NetworkedStorage_def
      example_cid_def)

lemma example_verifier:
  "getCidBlockVerifierFunction example_cid (hasher_of (example_storage brokers) example_cid)
     = Inr example_verify"
  by (simp add: example_hashers getCidBlockVerifierFunction_def)

lemma example_hash:
  "example_hasher good_block = digest (multihash example_cid)"
  "example_hasher bad_block \<noteq> digest (multihash example_cid)"
  by (simp_all add: example_hasher_def good_block_def bad_block_def example_cid_def)

lemma example_verify:
  "example_verify good_block = Inr ()"
  "example_verify bad_block = Inl ERR_HASH_MISMATCH"
  by (simp_all add: verifyBlock_def example_hash)

lemma stored_world_has:
  "holds stored_world (example_storage brokers) example_cid"
  "holds stored_world (unhashed_storage brokers) example_cid"
  by (simp_all add: example_child stored_world_def)

lemma stored_world_get:
  "bs_get (heap stored_world) (child (example_storage brokers)) example_cid = Inr good_block"
  "bs_get (heap stored_world) (child (unhashed_storage brokers)) example_cid = Inr good_block"
  by (simp_all add: example_child stored_world_def example_cid_def IDENTITY_CODEC_def)

lemma empty_world_has:
  "\<not> holds empty_world (example_storage brokers) example_cid"
  "\<not> holds empty_world (unhashed_storage brokers) example_cid"
  by (simp_all add: example_child empty_world_def example_cid_def IDENTITY_CODEC_def)

lemma example_options:
  "\<not> offline online" "signal online = None" "offline offline_only"
  by (simp_all add: online_def offline_only_def)

lemma example_attempts:
  "attempts storage_ok example_cid example_hasher online = [(5, Fulfilled good_block)]"
  "attempts storage_failing example_cid example_hasher online = [(5, Fulfilled good_block)]"
  "attempts storage_mixed example_cid example_hasher online
     = [(1, Rejected ERR_HASH_MISMATCH), (5, Fulfilled good_block)]"
  by (simp_all add: example_brokers example_options retrieverPromises_def retrieveAttempt_def
      good_retriever_def ok_announcer_def failing_announcer_def bad_retriever_def example_verify)

lemma example_race:
  "race_result storage_ok example_cid online w = Fulfilled good_block"
  "race_result storage_failing example_cid online w = Fulfilled good_block"
  "race_result storage_mixed example_cid online w = Fulfilled good_block"
  by (simp_all add: example_hashers race_with_hasher example_attempts Promise_any_def)

lemma example_announces:
  "announces storage_ok cid block = [(0, Fulfilled ()), (1, Fulfilled ())]"
  "announces storage_failing cid block
     = [(0, Fulfilled ()), (1, Rejected (BrokerFailure ''announce failed''))]"
  "announces storage_mixed cid block = [(0, Fulfilled ()), (0, Fulfilled ())]"
  by (simp_all add: example_brokers announcePromises_def good_retriever_def ok_announcer_def
      failing_announcer_def bad_retriever_def)

lemma example_announceEvents:
  "announceEvents (brokers_of storage_ok) cid block = [BrokerAnnounce 2 cid block]"
  "announceEvents (brokers_of storage_failing) cid block = [BrokerAnnounce 1 cid block]"
  "retrieveEvents cid (brokers_of storage_ok) = [BrokerRetrieve 3 cid]"
  by (simp_all add: example_brokers retrieveEvents_def good_retriever_def ok_announcer_def
      failing_announcer_def)


section \<open>C1: a failing announce\<close>

lemma put_announce_fulfilled:
  assumes "\<not> holds w this cid" "list_all is_fulfilled (announces this cid block)"
  shows "fst (put this cid block w) = Fulfilled cid"
  using put_written(1) [OF assms(1) Promise_all_fulfilled [OF assms(2)]] .

lemma put_announce_rejected:
  assumes "\<not> holds w this cid" "list_ex is_rejected (announces this cid block)"
  shows "(\<exists>t e. (t, Rejected e) \<in> set (announces this cid block)
            \<and> fst (put this cid block w) = Rejected e)
         \<and> heap (snd (put this cid block w)) = heap w"
proof -
  from Promise_all_rejected [OF assms(2)] obtain t e where
    te: "(t, Rejected e) \<in> set (announces this cid block)"
      "Promise_all (announces this cid block) = Rejected e" by blast
  then have "\<not> (\<exists>us. Promise_all (announces this cid block) = Fulfilled us)" by simp
  from put_announce_trace(1,3) [OF assms(1) this] te show ?thesis by auto
qed

lemma get_announce_fulfilled:
  assumes "\<not> offline options" "\<not> holds w this cid"
    and "race_result this cid options w = Fulfilled fetched"
    and "list_all is_fulfilled (announces this cid fetched)"
  shows "fst (get this cid options w) = Fulfilled fetched"
proof -
  from race_Fulfilled [OF assms(3)] obtain validateFn where
    "getCidBlockVerifierFunction cid (hasher_of this cid) = Inr validateFn"
    "Promise_any (retrieverPromises cid (brokers_of this) validateFn (signal options))
       = Fulfilled fetched" by blast
  from get_race_won(1) [OF assms(1,2) this] show ?thesis
    by (simp add: Promise_all_fulfilled [OF assms(4)])
qed

lemma get_announce_rejected:
  assumes "\<not> offline options" "\<not> holds w this cid"
    and "race_result this cid options w = Fulfilled fetched"
    and "list_ex is_rejected (announces this cid fetched)"
  shows "(\<exists>t e. (t, Rejected e) \<in> set (announces this cid fetched)
            \<and> fst (get this cid options w) = Rejected e)
         \<and> heap (snd (get this cid options w)) = bs_put (child this) cid fetched (heap w)"
proof -
  from race_Fulfilled [OF assms(3)] obtain validateFn where
    v: "getCidBlockVerifierFunction cid (hasher_of this cid) = Inr validateFn"
      "Promise_any (retrieverPromises cid (brokers_of this) validateFn (signal options))
         = Fulfilled fetched" by blast
  from Promise_all_rejected [OF assms(4)] obtain t e where
    te: "(t, Rejected e) \<in> set (announces this cid fetched)"
      "Promise_all (announces this cid fetched) = Rejected e" by blast
  from get_race_won(1,3) [OF assms(1,2) v] te show ?thesis by auto
qed

text \<open>
  Claim C1, as amended. A put that reaches the announce fan-out, and a get whose race
  was won, return their normal result when every announce promise fulfils. When an
  announce promise rejects, the put or get rejects with the error of a rejected announce:
  the put without writing to the Local Tier, the get after the fetched block was written.
\<close>

theorem announce_failure_fails_put_and_get:
  "(\<not> holds w this cid \<longrightarrow>
      (list_all is_fulfilled (announces this cid block) \<longrightarrow>
         fst (put this cid block w) = Fulfilled cid)
    \<and> (list_ex is_rejected (announces this cid block) \<longrightarrow>
         (\<exists>t e. (t, Rejected e) \<in> set (announces this cid block)
            \<and> fst (put this cid block w) = Rejected e)
         \<and> heap (snd (put this cid block w)) = heap w))
   \<and> (\<not> offline options \<and> \<not> holds w this cid
       \<and> race_result this cid options w = Fulfilled fetched \<longrightarrow>
      (list_all is_fulfilled (announces this cid fetched) \<longrightarrow>
         fst (get this cid options w) = Fulfilled fetched)
    \<and> (list_ex is_rejected (announces this cid fetched) \<longrightarrow>
         (\<exists>t e. (t, Rejected e) \<in> set (announces this cid fetched)
            \<and> fst (get this cid options w) = Rejected e)
         \<and> heap (snd (get this cid options w)) = bs_put (child this) cid fetched (heap w)))"
  using put_announce_fulfilled [of w this cid block] put_announce_rejected [of w this cid block]
    get_announce_fulfilled [of options w this cid fetched]
    get_announce_rejected [of options w this cid fetched]
  by blast

text \<open>A storage whose announcer fulfils, and one whose announcer rejects.\<close>

theorem announce_failure_fails_put_and_get_witness:
  "\<not> holds empty_world storage_ok example_cid \<and> \<not> offline online
   \<and> list_all is_fulfilled (announces storage_ok example_cid good_block)
   \<and> race_result storage_ok example_cid online empty_world = Fulfilled good_block
   \<and> fst (put storage_ok example_cid good_block empty_world) = Fulfilled example_cid
   \<and> fst (get storage_ok example_cid online empty_world) = Fulfilled good_block
   \<and> \<not> holds empty_world storage_failing example_cid
   \<and> list_ex is_rejected (announces storage_failing example_cid good_block)
   \<and> race_result storage_failing example_cid online empty_world = Fulfilled good_block
   \<and> fst (put storage_failing example_cid good_block empty_world)
       = Rejected (BrokerFailure ''announce failed'')
   \<and> heap (snd (put storage_failing example_cid good_block empty_world)) = heap empty_world
   \<and> fst (get storage_failing example_cid online empty_world)
       = Rejected (BrokerFailure ''announce failed'')
   \<and> heap (snd (get storage_failing example_cid online empty_world))
       = bs_put (child storage_failing) example_cid good_block (heap empty_world)"
proof -
  note ok = announce_failure_fails_put_and_get
      [of empty_world storage_ok example_cid good_block online good_block]
  note failing = announce_failure_fails_put_and_get
      [of empty_world storage_failing example_cid good_block online good_block]
  have hyps: "list_all is_fulfilled (announces storage_ok example_cid good_block)"
    "list_ex is_rejected (announces storage_failing example_cid good_block)"
    by (simp_all add: example_announces)
  have base: "\<not> holds empty_world storage_ok example_cid" "\<not> offline online"
    "\<not> holds empty_world storage_failing example_cid"
    "race_result storage_ok example_cid online empty_world = Fulfilled good_block"
    "race_result storage_failing example_cid online empty_world = Fulfilled good_block"
    by (rule empty_world_has example_options example_race)+
  from ok base hyps have a:
    "fst (put storage_ok example_cid good_block empty_world) = Fulfilled example_cid"
    "fst (get storage_ok example_cid online empty_world) = Fulfilled good_block"
    by blast+
  from failing base hyps obtain t e t' e' where
    p: "(t, Rejected e) \<in> set (announces storage_failing example_cid good_block)"
      "fst (put storage_failing example_cid good_block empty_world) = Rejected e"
      "heap (snd (put storage_failing example_cid good_block empty_world)) = heap empty_world"
    and g: "(t', Rejected e') \<in> set (announces storage_failing example_cid good_block)"
      "fst (get storage_failing example_cid online empty_world) = Rejected e'"
      "heap (snd (get storage_failing example_cid online empty_world))
         = bs_put (child storage_failing) example_cid good_block (heap empty_world)"
    by blast
  from p(1) g(1) have "e = BrokerFailure ''announce failed''" "e' = BrokerFailure ''announce failed''"
    by (simp_all add: example_announces)
  with base hyps a p(2,3) g(2,3) show ?thesis by simp
qed

text \<open>
  The rejection of an announce is the result of the put, and of the get that fetched the
  block. The storage has a retriever without announce and an announcer whose announce
  rejects. put: has is false on the empty store (line 80), Promise.all over the announces
  rejects (lines 87-89), the await throws and put rejects before line 93. get: the race
  resolves with the matching block, the block is stored (line 133), then Promise.all over
  the announces rejects (lines 137-139) and get rejects instead of returning the block.
\<close>

theorem announce_failure_counterexample:
  "fst (put storage_failing example_cid good_block empty_world)
     = Rejected (BrokerFailure ''announce failed'')
   \<and> fst (get storage_failing example_cid online empty_world)
     = Rejected (BrokerFailure ''announce failed'')"
proof -
  have all: "Promise_all (announces storage_failing example_cid good_block)
               = Rejected (BrokerFailure ''announce failed'')"
    by (simp add: example_announces Promise_all_def)
  then have "\<not> (\<exists>us. Promise_all (announces storage_failing example_cid good_block)
                   = Fulfilled us)" by simp
  from put_announce_trace(1) [OF empty_world_has(1) this]
  have "fst (put storage_failing example_cid good_block empty_world)
          = Rejected (BrokerFailure ''announce failed'')" by (simp add: all)
  moreover have "Promise_any (retrieverPromises example_cid (brokers_of storage_failing)
                   example_verify (signal online)) = Fulfilled good_block"
    by (simp add: example_attempts Promise_any_def)
  from get_race_won(1) [OF example_options(1) empty_world_has(1) example_verifier this]
  have "fst (get storage_failing example_cid online empty_world)
          = Rejected (BrokerFailure ''announce failed'')" by (simp add: all)
  ultimately show ?thesis by blast
qed

section \<open>C2: the signal of the race\<close>

text \<open>
  Claim C2 does not hold of the code. The signal handed to the retrievers fires exactly
  when the caller's signal does: the race never aborts its own controller. With a
  retriever that wins at time 1 and one that would stop if it saw the signal aborted at
  time 5, the loser sees no abort and runs on until it resolves at time 10.
\<close>

theorem race_never_aborts_losing_attempt:
  "race_signal options_signal = options_signal
   \<and> retrieverPromises example_cid [slow_retriever, fast_retriever] example_verify None
      = [(10, Fulfilled good_block), (1, Fulfilled good_block)]
   \<and> fst (raceBlockRetrievers example_cid [slow_retriever, fast_retriever] (Some example_hasher)
        None empty_world) = Fulfilled good_block
   \<and> \<not> aborted_at (race_signal None) 5"
proof -
  have sig: "race_signal None = None" by (rule race_signal_caller)
  have "retrieverPromises example_cid [slow_retriever, fast_retriever] example_verify None
      = [(10, Fulfilled good_block), (1, Fulfilled good_block)]"
    by (simp add: retrieverPromises_def slow_retriever_def fast_retriever_def retrieveAttempt_def
        sig aborted_at_def example_verify)
  then show ?thesis
    by (simp add: race_with_hasher Promise_any_def sig aborted_at_def race_signal_caller)
qed

section \<open>C3: what get returns and writes\<close>

text \<open>
  Claim C3, as amended. On the network path of get (not offline, local miss), a block
  that is returned was accepted by the race for a registered hasher and is the block
  written to the Local Tier; and the Local Tier is either left as it was or gains exactly
  one block the race accepted. Accepted (\<open>accepted_by_race\<close>) means: a retriever resolved
  with it, and the race verified its digest or that broker's validate callback succeeded
  on matching bytes.
\<close>

theorem get_returns_and_writes_accepted_blocks:
  assumes "\<not> offline options" "\<not> holds w this cid"
  shows "(fst (get this cid options w) = Fulfilled block \<longrightarrow>
            (\<exists>h. hasher_of this cid = Some h
               \<and> accepted_by_race cid (brokers_of this) h (signal options) block)
            \<and> heap (snd (get this cid options w)) = bs_put (child this) cid block (heap w))
       \<and> (heap (snd (get this cid options w)) = heap w
          \<or> (\<exists>h written. hasher_of this cid = Some h
               \<and> accepted_by_race cid (brokers_of this) h (signal options) written
               \<and> heap (snd (get this cid options w)) = bs_put (child this) cid written (heap w)))"
proof (cases "hasher_of this cid")
  case None
  from get_no_hasher(1,3) [OF assms None] show ?thesis by simp
next
  case (Some h)
  then have v: "getCidBlockVerifierFunction cid (hasher_of this cid) = Inr (verifyBlock cid h)"
    by (simp add: getCidBlockVerifierFunction_def)
  show ?thesis
  proof (cases "\<exists>b. Promise_any (attempts this cid h options) = Fulfilled b")
    case True
    then obtain b where b: "Promise_any (attempts this cid h options) = Fulfilled b" ..
    then have "accepted_by_race cid (brokers_of this) h (signal options) b"
      using race_accepted [of cid "brokers_of this" h "signal options" w b]
      by (simp add: race_with_hasher)
    with get_race_won(1,3) [OF assms v b] Some show ?thesis
      by (auto split: outcome.splits)
  next
    case False
    from get_race_lost(1,3) [OF assms v False] show ?thesis
      by (auto split: outcome.splits)
  qed
qed

text \<open>A get from the network where one broker returns a mismatching block first.\<close>

theorem get_returns_and_writes_accepted_blocks_witness:
  "\<not> offline online \<and> \<not> holds empty_world storage_mixed example_cid
   \<and> fst (get storage_mixed example_cid online empty_world) = Fulfilled good_block
   \<and> accepted_by_race example_cid (brokers_of storage_mixed) example_hasher (signal online)
        good_block
   \<and> heap (snd (get storage_mixed example_cid online empty_world))
        = bs_put (child storage_mixed) example_cid good_block (heap empty_world)"
proof -
  note net = example_options(1) empty_world_has(1) [of "[bad_retriever, good_retriever]"]
  have "Promise_any (retrieverPromises example_cid (brokers_of storage_mixed) example_verify
          (signal online)) = Fulfilled good_block"
    by (simp add: example_attempts Promise_any_def)
  from get_race_won(1) [OF net example_verifier this]
  have val: "fst (get storage_mixed example_cid online empty_world) = Fulfilled good_block"
    by (simp add: example_announces Promise_all_def)
  with get_returns_and_writes_accepted_blocks [OF net, of good_block] net show ?thesis
    by (auto simp: example_hashers)
qed

text \<open>
  put checks nothing and the local path of get checks nothing: a mismatching block that
  was put is stored, and the next get returns it. The storage has no brokers. put: has is
  false, Promise.all of no promises fulfils, the block is stored (line 93) and no hash is
  computed. get: has is now true, so line 146 returns what the store holds.
\<close>

theorem put_and_local_get_unverified_counterexample:
  "fst (put (example_storage []) example_cid bad_block empty_world) = Fulfilled example_cid
   \<and> fst (get (example_storage []) example_cid online
        (snd (put (example_storage []) example_cid bad_block empty_world))) = Fulfilled bad_block
   \<and> example_hasher bad_block \<noteq> digest (multihash example_cid)"
proof -
  let ?S = "example_storage []"
  let ?w1 = "snd (put ?S example_cid bad_block empty_world)"
  have "Promise_all (announces ?S example_cid bad_block) = Fulfilled []"
    by (simp add: example_brokers announcePromises_def Promise_all_def)
  note first = put_written [OF empty_world_has(1) this]
  have has: "holds ?w1 ?S example_cid"
    by (simp add: first(3) bs_has_after_put example_child)
  have "bs_get (heap ?w1) (child ?S) example_cid = Inr bad_block"
    unfolding first(3)
    by (simp add: example_child empty_world_def example_cid_def IDENTITY_CODEC_def)
  with get_local(1) [of online ?w1 ?S example_cid] has first(1) example_hash(2)
  show ?thesis by simp
qed

section \<open>C4: what the race has checked of the block it resolves with\<close>

lemma race_earliest_fulfilled:
  assumes "list_ex is_fulfilled (retrieverPromises cid brokers (verifyBlock cid h) sig)"
  shows "\<exists>t first.
           (t, Fulfilled first) \<in> set (retrieverPromises cid brokers (verifyBlock cid h) sig)
           \<and> fst (raceBlockRetrievers cid brokers (Some h) sig w) = Fulfilled first
           \<and> (\<forall>t' other. (t', Fulfilled other)
                  \<in> set (retrieverPromises cid brokers (verifyBlock cid h) sig) \<longrightarrow> t \<le> t')"
proof -
  from Promise_any_some_fulfilled [OF assms] obtain first where
    f: "Promise_any (retrieverPromises cid brokers (verifyBlock cid h) sig) = Fulfilled first" ..
  from Promise_any_Fulfilled [OF f] f show ?thesis
    by (auto simp: race_with_hasher)
qed

text \<open>
  Claim C4, as amended. When a broker resolves without a successful call of the validate
  callback, the race validates the returned bytes itself: the attempt is fulfilled when
  they match the digest and rejected with the hash mismatch otherwise. Every block the
  race resolves with was accepted (\<open>accepted_by_race\<close>): a retriever resolved with it
  and it either passed that check or comes from a broker whose callback call succeeded on
  bytes matching the digest. Rejected attempts do not end the race: when some attempt is
  fulfilled, the race resolves with the block of the earliest fulfilled attempt.
\<close>

theorem race_validates_unvalidated_blocks:
  assumes "ps = retrieverPromises cid brokers (verifyBlock cid h) sig"
  shows "(run_retrieve (verifyBlock cid h) s r False = ((t, Fulfilled block), False) \<longrightarrow>
            retrieveAttempt (verifyBlock cid h) s r
              = (t, if h block = digest (multihash cid) then Fulfilled block
                    else Rejected ERR_HASH_MISMATCH))
       \<and> (fst (raceBlockRetrievers cid brokers (Some h) sig w) = Fulfilled won \<longrightarrow>
            accepted_by_race cid brokers h sig won)
       \<and> (list_ex is_fulfilled ps \<longrightarrow>
            (\<exists>t' first. (t', Fulfilled first) \<in> set ps
               \<and> fst (raceBlockRetrievers cid brokers (Some h) sig w) = Fulfilled first
               \<and> (\<forall>t'' other. (t'', Fulfilled other) \<in> set ps \<longrightarrow> t' \<le> t'')))"
  using retrieveAttempt_unvalidated [of "verifyBlock cid h" s r t block]
    race_accepted [of cid brokers h sig w won]
    race_earliest_fulfilled [of cid brokers h sig w]
  unfolding assms by (simp add: verifyBlock_def)

text \<open>
  A broker that resolves early with a mismatching block it never validated, and one that
  resolves later with the matching block.
\<close>

theorem race_validates_unvalidated_blocks_witness:
  "run_retrieve example_verify None (Resolve 1 bad_block) False = ((1, Fulfilled bad_block), False)
   \<and> retrieveAttempt example_verify None (Resolve 1 bad_block) = (1, Rejected ERR_HASH_MISMATCH)
   \<and> list_ex is_fulfilled (attempts storage_mixed example_cid example_hasher online)
   \<and> fst (raceBlockRetrievers example_cid (brokers_of storage_mixed) (Some example_hasher)
        (signal online) empty_world) = Fulfilled good_block
   \<and> accepted_by_race example_cid (brokers_of storage_mixed) example_hasher (signal online)
        good_block"
proof -
  note inst = race_validates_unvalidated_blocks [OF refl, of example_cid example_hasher None
      "Resolve 1 bad_block" 1 bad_block "brokers_of storage_mixed" "signal online" empty_world
      good_block]
  have some: "list_ex is_fulfilled (attempts storage_mixed example_cid example_hasher online)"
    by (simp add: example_attempts)
  with inst obtain t' first where
    "(t', Fulfilled first) \<in> set (attempts storage_mixed example_cid example_hasher online)"
    "fst (raceBlockRetrievers example_cid (brokers_of storage_mixed) (Some example_hasher)
        (signal online) empty_world) = Fulfilled first" by blast
  then have won: "fst (raceBlockRetrievers example_cid (brokers_of storage_mixed)
        (Some example_hasher) (signal online) empty_world) = Fulfilled good_block"
    by (simp add: example_attempts)
  with inst some show ?thesis by (simp add: example_hash)
qed

text \<open>
  A broker that validates the matching block and then resolves with the mismatching one
  wins the race: the block the race resolves with does not match the digest, although
  another broker resolves later with the matching block. The broker awaits validateFn on
  the matching block, which returns, so line 274 sets the flag; it resolves with the
  mismatching block at time 1; line 278 skips the check and line 284 returns the block.
  Promise.any takes the earliest fulfilment; the other broker fulfils at time 5.
\<close>

theorem race_trusts_validating_broker_counterexample:
  "fst (raceBlockRetrievers example_cid [faulty_retriever, good_retriever] (Some example_hasher)
      None empty_world) = Fulfilled bad_block
   \<and> example_hasher bad_block \<noteq> digest (multihash example_cid)"
proof -
  have "retrieverPromises example_cid [faulty_retriever, good_retriever] example_verify None
        = [(1, Fulfilled bad_block), (5, Fulfilled good_block)]"
    by (simp add: retrieverPromises_def faulty_retriever_def good_retriever_def retrieveAttempt_def
        example_verify)
  then show ?thesis
    by (simp add: race_with_hasher Promise_any_def example_hash)
qed

section \<open>C5: reads that stay local\<close>

text \<open>
  Claim C5. A get of a CID the Local Tier holds adds no broker call (no retrieve, no
  announce, no session) to the trace and returns a block; an offline get adds no broker
  call either, and when the Local Tier misses the block it fails with the not-found
  error of the Local Tier.
\<close>

theorem get_local_invokes_no_broker:
  "(holds w this cid \<longrightarrow>
      filter is_broker_event (get_events this cid options w) = []
      \<and> (\<exists>block. fst (get this cid options w) = Fulfilled block))
   \<and> (offline options \<longrightarrow>
      filter is_broker_event (get_events this cid options w) = []
      \<and> (\<not> holds w this cid \<longrightarrow> fst (get this cid options w) = Rejected ERR_NOT_FOUND))"
proof -
  have "filter is_broker_event (get_events this cid options w) = []"
    if "offline options \<or> holds w this cid"
    using get_local(2) [OF that] by simp
  moreover have "\<exists>block. fst (get this cid options w) = Fulfilled block" if "holds w this cid"
    using get_local(1) [of options w this cid] bs_get_hit [OF that] that by auto
  moreover have "fst (get this cid options w) = Rejected ERR_NOT_FOUND"
    if "offline options" "\<not> holds w this cid"
    using get_local(1) [of options w this cid] bs_get_miss [OF that(2)] that by simp
  ultimately show ?thesis by blast
qed

text \<open>
  A storage with a retrieving and an announcing broker: a get of a stored block, and an
  offline get of a missing one.
\<close>

theorem get_local_invokes_no_broker_witness:
  "holds stored_world storage_ok example_cid
   \<and> filter is_broker_event (get_events storage_ok example_cid online stored_world) = []
   \<and> fst (get storage_ok example_cid online stored_world) = Fulfilled good_block
   \<and> offline offline_only \<and> \<not> holds empty_world storage_ok example_cid
   \<and> filter is_broker_event (get_events storage_ok example_cid offline_only empty_world) = []
   \<and> fst (get storage_ok example_cid offline_only empty_world) = Rejected ERR_NOT_FOUND"
proof -
  have "fst (get storage_ok example_cid online stored_world) = Fulfilled good_block"
    using get_local(1) [of online stored_world storage_ok example_cid]
    by (simp add: stored_world_has stored_world_get)
  with get_local_invokes_no_broker [of stored_world storage_ok example_cid online]
    get_local_invokes_no_broker [of empty_world storage_ok example_cid offline_only]
    stored_world_has(1) empty_world_has(1) example_options(3)
  show ?thesis by blast
qed

section \<open>C6: putting a block twice\<close>

lemma put_twice:
  assumes "\<not> holds w this cid" "persistent (child this)"
    and "list_all is_fulfilled (announces this cid block)"
  shows "fst (put this cid block w) = Fulfilled cid
       \<and> fst (put this cid block (snd (put this cid block w))) = Fulfilled cid
       \<and> put_twice_events this cid block w
           = [ChildHas cid, Progress ''blocks:put:providers:notify'' cid]
               @ announceEvents (brokers_of this) cid block
               @ [Progress ''blocks:put:blockstore:put'' cid, ChildPut cid block,
                  ChildHas cid, Progress ''blocks:put:duplicate'' cid]"
proof -
  note first = put_written [OF assms(1) Promise_all_fulfilled [OF assms(3)]]
  have "holds (snd (put this cid block w)) this cid"
    by (simp add: first(3) bs_has_after_put assms(2))
  note second = put_duplicate [OF this, of block]
  show ?thesis by (simp add: first(1,2) second(1,2))
qed

text \<open>
  Claim C6, as amended. A put of a CID the Local Tier holds emits the duplicate event
  and returns the CID; it calls no broker and leaves the stores as they are. When the
  CID is not held, the store keeps what is put and every announce of the first call
  fulfils, two puts of the CID make one announce fan-out and one write, and the second
  put ends with the duplicate event.
\<close>

theorem put_duplicate_skips_announce_and_write:
  "(holds w this cid \<longrightarrow>
      fst (put this cid block w) = Fulfilled cid
      \<and> put_events this cid block w = [ChildHas cid, Progress ''blocks:put:duplicate'' cid]
      \<and> heap (snd (put this cid block w)) = heap w)
   \<and> (\<not> holds w this cid \<and> persistent (child this)
       \<and> list_all is_fulfilled (announces this cid block) \<longrightarrow>
      fst (put this cid block w) = Fulfilled cid
      \<and> fst (put this cid block (snd (put this cid block w))) = Fulfilled cid
      \<and> filter is_announce (put_twice_events this cid block w)
           = announceEvents (brokers_of this) cid block
      \<and> filter is_child_put (put_twice_events this cid block w)
           = [ChildPut cid block]
      \<and> last (put_twice_events this cid block w)
           = Progress ''blocks:put:duplicate'' cid)"
  using put_duplicate [of w this cid block] put_twice [of w this cid block] by simp

text \<open>A put of a stored CID, and two puts of a new one, with one announcing broker.\<close>

theorem put_duplicate_skips_announce_and_write_witness:
  "holds stored_world storage_ok example_cid
   \<and> put_events storage_ok example_cid good_block stored_world
      = [ChildHas example_cid, Progress ''blocks:put:duplicate'' example_cid]
   \<and> \<not> holds empty_world storage_ok example_cid \<and> persistent (child storage_ok)
   \<and> list_all is_fulfilled (announces storage_ok example_cid good_block)
   \<and> filter is_announce (put_twice_events storage_ok example_cid good_block empty_world)
      = [BrokerAnnounce 2 example_cid good_block]
   \<and> filter is_child_put (put_twice_events storage_ok example_cid good_block empty_world)
      = [ChildPut example_cid good_block]"
proof -
  have hyps: "persistent (child storage_ok)"
    "list_all is_fulfilled (announces storage_ok example_cid good_block)"
    by (simp_all add: example_child example_announces)
  with put_duplicate_skips_announce_and_write [of stored_world storage_ok example_cid good_block]
    put_duplicate_skips_announce_and_write [of empty_world storage_ok example_cid good_block]
    stored_world_has(1) empty_world_has(1)
  show ?thesis by (simp add: example_announceEvents)
qed

text \<open>
  With a broker whose announce rejects, the first put fails before the write, so the
  second put announces again: two fan-outs and no write. First put: has is false, the
  announce is called, Promise.all rejects (lines 87-89), line 93 is not reached. Second
  put: has is still false, the announce is called again and rejects again.
\<close>

theorem put_twice_failing_announce_counterexample:
  "filter is_announce (put_twice_events storage_failing example_cid good_block empty_world)
      = [BrokerAnnounce 1 example_cid good_block, BrokerAnnounce 1 example_cid good_block]
   \<and> filter is_child_put (put_twice_events storage_failing example_cid good_block empty_world)
      = []"
proof -
  let ?w1 = "snd (put storage_failing example_cid good_block empty_world)"
  have no: "\<not> (\<exists>us. Promise_all (announces storage_failing example_cid good_block)
                   = Fulfilled us)"
    by (simp add: example_announces Promise_all_def)
  note first = put_announce_trace [OF empty_world_has(1) no]
  have "\<not> holds ?w1 storage_failing example_cid"
    using empty_world_has(1) [of "[good_retriever, failing_announcer]"] by (simp add: first(3))
  note second = put_announce_trace [OF this no]
  have "put_twice_events storage_failing example_cid good_block empty_world
          = [ChildHas example_cid, Progress ''blocks:put:providers:notify'' example_cid,
             BrokerAnnounce 1 example_cid good_block,
             ChildHas example_cid, Progress ''blocks:put:providers:notify'' example_cid,
             BrokerAnnounce 1 example_cid good_block]"
    by (rule events_since_append) (simp add: second(2) first(2) example_announceEvents)
  then show ?thesis by simp
qed

section \<open>C7: the race fails with an aggregate error\<close>

text \<open>
  Claim C7, as amended. Given a hasher for the algorithm of the CID, the race rejects with
  an \<open>AggregateError\<close> of no errors when no broker has \<open>retrieve\<close>, and with an
  \<open>AggregateError\<close> of the errors of all attempts, in the order of the brokers, when
  every attempt rejects.
\<close>

theorem race_fails_with_aggregate_error:
  assumes "ps = retrieverPromises cid brokers (verifyBlock cid h) sig"
  shows "(retrievers_of brokers = [] \<longrightarrow>
            fst (raceBlockRetrievers cid brokers (Some h) sig w) = Rejected (AggregateError []))
       \<and> (list_all is_rejected ps \<longrightarrow>
            fst (raceBlockRetrievers cid brokers (Some h) sig w)
              = Rejected (AggregateError (map snd (rejections ps)))
            \<and> map (\<lambda>(t, e). (t, Rejected e)) (rejections ps) = ps)"
proof -
  have "retrievers_of brokers = [] \<Longrightarrow> ps = []"
    using assms by (simp add: retrieverPromises_Nil)
  then show ?thesis
    unfolding race_with_hasher assms [symmetric]
    by (auto simp: Promise_any_Nil Promise_any_all_rejected all_rejected_rejections)
qed

text \<open>
  A race with no retrieving broker, and one whose two retrievers fail (one rejects, the
  other resolves with a block that fails the check of the race).
\<close>

theorem race_fails_with_aggregate_error_witness:
  "retrievers_of [ok_announcer] = []
   \<and> fst (raceBlockRetrievers example_cid [ok_announcer] (Some example_hasher) None empty_world)
     = Rejected (AggregateError [])
   \<and> list_all is_rejected
       (retrieverPromises example_cid [failing_retriever, bad_retriever] example_verify None)
   \<and> fst (raceBlockRetrievers example_cid [failing_retriever, bad_retriever]
            (Some example_hasher) None empty_world)
     = Rejected (AggregateError [BrokerFailure ''network failure'', ERR_HASH_MISMATCH])"
proof -
  have none: "retrievers_of [ok_announcer] = []" by (simp add: ok_announcer_def)
  have ps: "retrieverPromises example_cid [failing_retriever, bad_retriever] example_verify None
       = [(2, Rejected (BrokerFailure ''network failure'')), (1, Rejected ERR_HASH_MISMATCH)]"
    by (simp add: retrieverPromises_def failing_retriever_def bad_retriever_def
        retrieveAttempt_def example_verify)
  from race_fails_with_aggregate_error [OF refl, of "[ok_announcer]" example_cid example_hasher
      None empty_world] none
  have a: "fst (raceBlockRetrievers example_cid [ok_announcer] (Some example_hasher) None
             empty_world) = Rejected (AggregateError [])" by blast
  from race_fails_with_aggregate_error [OF refl, of "[failing_retriever, bad_retriever]"
      example_cid example_hasher None empty_world]
  have "fst (raceBlockRetrievers example_cid [failing_retriever, bad_retriever]
            (Some example_hasher) None empty_world)
     = Rejected (AggregateError [BrokerFailure ''network failure'', ERR_HASH_MISMATCH])"
    by (simp add: ps)
  with none a ps show ?thesis by simp
qed

text \<open>
  Without a hasher the race throws the missing-hasher error before it looks at the
  brokers: with no broker at all the error is not an \<open>AggregateError\<close>. Line 249 calls
  getCidBlockVerifierFunction, which throws at line 230; the brokers are filtered only
  at lines 255-261.
\<close>

theorem race_without_hasher_counterexample:
  "retrievers_of [] = []
   \<and> fst (raceBlockRetrievers example_cid [] None None empty_world)
       = Rejected (ERR_UNKNOWN_HASH_ALG 18)"
  by (simp add: raceBlockRetrievers_def getCidBlockVerifierFunction_def example_cid_def)

section \<open>C8: the order of announce and write\<close>





section \<open>C9: sessions\<close>

lemma session_brokers_related:
  assumes "map snd (sessionPromises brokers root) = map Fulfilled sessionBrokers"
  shows "list_all2 (session_of root) brokers sessionBrokers"
  using assms
proof (induction brokers arbitrary: sessionBrokers)
  case Nil
  then show ?case by (simp add: sessionPromises_def)
next
  case (Cons b brokers)
  then obtain n ns where ns: "sessionBrokers = n # ns"
    by (cases sessionBrokers) (auto simp: sessionPromises_def)
  with Cons.prems have "map snd (sessionPromises brokers root) = map Fulfilled ns"
    and "session_of root b n"
    by (auto simp: sessionPromises_def session_of_def split: option.splits)
  with Cons.IH ns show ?case by simp
qed

lemma createSession_Fulfilled:
  assumes "fst (createSession this root w) = Fulfilled s"
  shows "\<exists>sessionBrokers.
           Promise_all (sessionPromises (brokers_of this) root) = Fulfilled sessionBrokers
           \<and> s = new_NetworkedStorage
                   \<lparr> blockstore = child this, blockBrokers = sessionBrokers,
                     hashers = this_hashers this \<rparr> (Some root)"
  using assms by (auto simp: createSession_def Let_def split: outcome.splits)

lemma createSession_returns:
  assumes "list_all is_fulfilled (sessionPromises (brokers_of this) root)"
  shows "\<exists>s. fst (createSession this root w) = Fulfilled s"
  using Promise_all_fulfilled [OF assms] by (simp add: createSession_def Let_def)

text \<open>
  Claim C9. For a storage made by the constructor and every root: when every broker's
  session promise fulfils, createSession returns a storage; and a storage it returns has,
  position by position, the old broker where that broker has no \<open>createSession\<close> and
  the result of the broker's \<open>createSession\<close> for the root where it has one, the same
  hashers, and a Local Tier that answers \<open>has\<close> and \<open>get\<close> as the original does in
  every heap and writes to the same cells (the store is shared, not copied).
\<close>

theorem createSession_shares_store_and_scopes_brokers:
  assumes "this = new_NetworkedStorage comps r0"
  shows "(list_all is_fulfilled (sessionPromises (brokers_of this) root) \<longrightarrow>
            (\<exists>s'. fst (createSession this root w) = Fulfilled s'))
       \<and> (fst (createSession this root w) = Fulfilled s \<longrightarrow>
            list_all2 (session_of root) (brokers_of this) (brokers_of s)
            \<and> this_hashers s = this_hashers this
            \<and> (\<forall>h cid. bs_has h (child s) cid = bs_has h (child this) cid
                     \<and> bs_get h (child s) cid = bs_get h (child this) cid)
            \<and> (\<forall>h cid block. bs_put (child s) cid block h = bs_put (child this) cid block h))"
proof (intro conjI impI)
  assume "list_all is_fulfilled (sessionPromises (brokers_of this) root)"
  then show "\<exists>s'. fst (createSession this root w) = Fulfilled s'"
    by (rule createSession_returns)
next
  assume "fst (createSession this root w) = Fulfilled s"
  from createSession_Fulfilled [OF this] obtain sessionBrokers where
    all: "Promise_all (sessionPromises (brokers_of this) root) = Fulfilled sessionBrokers"
    and s: "s = new_NetworkedStorage
                  \<lparr> blockstore = child this, blockBrokers = sessionBrokers,
                    hashers = this_hashers this \<rparr> (Some root)" by blast
  have shape: "child this = TieredBlockstore [IdentityBlockstore, blockstore comps]"
    "child s = TieredBlockstore [IdentityBlockstore, child this]"
    "brokers_of s = sessionBrokers"
    using assms s by (simp_all add: new_NetworkedStorage_def)
  show "list_all2 (session_of root) (brokers_of this) (brokers_of s)"
    unfolding shape(3) by (rule session_brokers_related) (rule Promise_all_values [OF all])
  show "this_hashers s = this_hashers this"
    using s by (simp add: new_NetworkedStorage_def)
  show "\<forall>h cid. bs_has h (child s) cid = bs_has h (child this) cid
               \<and> bs_get h (child s) cid = bs_get h (child this) cid"
    unfolding shape(2) unfolding shape(1) using tier_over_tier_has tier_over_tier_get by blast
  show "\<forall>h cid block. bs_put (child s) cid block h = bs_put (child this) cid block h"
    unfolding shape(2) unfolding shape(1) using tier_over_tier_put by blast
qed

text \<open>A storage with a session-capable broker and a plain one.\<close>

theorem createSession_shares_store_and_scopes_brokers_witness:
  "storage_sessions
     = new_NetworkedStorage
         \<lparr> blockstore = MemoryBlockstore 0, blockBrokers = [session_broker, good_retriever],
           hashers = [18 \<mapsto> example_hasher] \<rparr> None
   \<and> list_all is_fulfilled (sessionPromises (brokers_of storage_sessions) example_cid)
   \<and> (\<exists>s. fst (createSession storage_sessions example_cid empty_world) = Fulfilled s
          \<and> brokers_of s = [session_of_9, good_retriever]
          \<and> bs_get (heap stored_world) (child s) example_cid = Inr good_block
          \<and> bs_has (heap empty_world) (child s) example_cid = False)"
proof -
  have mk: "storage_sessions = new_NetworkedStorage
         \<lparr> blockstore = MemoryBlockstore 0, blockBrokers = [session_broker, good_retriever],
           hashers = [18 \<mapsto> example_hasher] \<rparr> None"
    by (simp add: example_storage_def)
  have ps: "sessionPromises (brokers_of storage_sessions) root
              = [(1, Fulfilled session_of_9), (0, Fulfilled good_retriever)]" for root
    by (simp add: example_brokers sessionPromises_def session_broker_def good_retriever_def)
  then have ok: "list_all is_fulfilled (sessionPromises (brokers_of storage_sessions) example_cid)"
    by simp
  note inst = createSession_shares_store_and_scopes_brokers [OF mk, of example_cid empty_world]
  from inst ok obtain s where
    s: "fst (createSession storage_sessions example_cid empty_world) = Fulfilled s" by blast
  from inst [of s] s have
    rel: "list_all2 (session_of example_cid) (brokers_of storage_sessions) (brokers_of s)"
    and same: "\<And>h cid. bs_has h (child s) cid = bs_has h (child storage_sessions) cid"
      "\<And>h cid. bs_get h (child s) cid = bs_get h (child storage_sessions) cid"
    by blast+
  from rel have "brokers_of s = [session_of_9, good_retriever]"
    by (auto simp: example_brokers list_all2_Cons1 session_of_def session_broker_def
        good_retriever_def)
  moreover have "bs_get (heap stored_world) (child s) example_cid = Inr good_block"
    "bs_has (heap empty_world) (child s) example_cid = False"
    by (simp_all add: same stored_world_get empty_world_has)
  ultimately show ?thesis using mk ok s by blast
qed

section \<open>C10: a missing hasher\<close>

text \<open>
  Claim C10. When no hasher is registered for the multihash code of the CID, a get of a
  CID the Local Tier holds still returns the stored block; a get that goes to the network
  (not offline, local miss) fails with the missing-hasher error before any broker is
  called; and get fails with that error in no other case.
\<close>

theorem missing_hasher_fails_network_retrieval_only:
  assumes "hasher_of this cid = None"
  shows "(holds w this cid \<longrightarrow>
            (\<exists>block. bs_get (heap w) (child this) cid = Inr block
                 \<and> fst (get this cid options w) = Fulfilled block))
       \<and> (\<not> offline options \<and> \<not> holds w this cid \<longrightarrow>
            fst (get this cid options w) = Rejected (ERR_UNKNOWN_HASH_ALG (code (multihash cid)))
            \<and> filter is_broker_event (get_events this cid options w) = [])
       \<and> (\<forall>n. fst (get this cid options w) = Rejected (ERR_UNKNOWN_HASH_ALG n) \<longrightarrow>
            \<not> offline options \<and> \<not> holds w this cid)"
proof -
  have hit: "\<exists>block. bs_get (heap w) (child this) cid = Inr block
                 \<and> fst (get this cid options w) = Fulfilled block" if "holds w this cid"
    using get_local(1) [of options w this cid] bs_get_hit [OF that] that by auto
  have net: "fst (get this cid options w) = Rejected (ERR_UNKNOWN_HASH_ALG (code (multihash cid)))
            \<and> filter is_broker_event (get_events this cid options w) = []"
    if "\<not> offline options" "\<not> holds w this cid"
    using get_no_hasher(1,2) [OF that assms] by simp
  have only: "fst (get this cid options w) \<noteq> Rejected (ERR_UNKNOWN_HASH_ALG n)"
    if "offline options \<or> holds w this cid" for n
  proof (cases "holds w this cid")
    case True
    then show ?thesis using hit by auto
  next
    case False
    then show ?thesis using get_local(1) [OF that] bs_get_miss [OF False] by simp
  qed
  show ?thesis using hit net only by blast
qed

text \<open>A storage with no hasher at all, on a world that holds the block and on one that
  does not.\<close>

theorem missing_hasher_fails_network_retrieval_only_witness:
  "hasher_of storage_unhashed example_cid = None
   \<and> holds stored_world storage_unhashed example_cid
   \<and> fst (get storage_unhashed example_cid online stored_world) = Fulfilled good_block
   \<and> \<not> offline online \<and> \<not> holds empty_world storage_unhashed example_cid
   \<and> fst (get storage_unhashed example_cid online empty_world)
        = Rejected (ERR_UNKNOWN_HASH_ALG 18)
   \<and> filter is_broker_event (get_events storage_unhashed example_cid online empty_world) = []"
proof -
  have h: "hasher_of storage_unhashed example_cid = None" by (rule example_hashers)
  have c: "code (multihash example_cid) = 18" by (simp add: example_cid_def)
  from missing_hasher_fails_network_retrieval_only [OF h, of stored_world online]
    stored_world_has(2) stored_world_get(2)
  have "fst (get storage_unhashed example_cid online stored_world) = Fulfilled good_block"
    by auto
  moreover from missing_hasher_fails_network_retrieval_only [OF h, of empty_world online]
    example_options(1) empty_world_has(2)
  have "fst (get storage_unhashed example_cid online empty_world)
             = Rejected (ERR_UNKNOWN_HASH_ALG (code (multihash example_cid)))
         \<and> filter is_broker_event (get_events storage_unhashed example_cid online empty_world) = []"
    by blast
  ultimately show ?thesis
    using h stored_world_has(2) example_options(1) empty_world_has(2) unfolding c by blast
qed

end
